theory Spec2Isabelle
  imports Main "HOL-Library.Sublist" "HOL-Library.List_Lexorder"
begin

section \<open>Hacker News to Instapaper: the data model\<close>

text \<open>
  The program of \<^verbatim>\<open>main.py\<close> is a single pass: check three environment variables,
  fetch the identifiers of the top stories, fetch every story, keep the stories that have
  a \<^verbatim>\<open>url\<close>, sort them by \<^verbatim>\<open>descendants\<close>, keep the first few and mail each one.

  A story is the dictionary that \<^verbatim>\<open>response.json()\<close> returns. Its keys are strings; the
  values the program reads (\<^verbatim>\<open>url\<close>, \<^verbatim>\<open>title\<close>, \<^verbatim>\<open>descendants\<close>) are modelled as JSON
  scalars. Python's \<^verbatim>\<open>None\<close> is the JSON \<^verbatim>\<open>null\<close>. Numbers with a fraction, and values
  that are arrays or objects (the \<^verbatim>\<open>kids\<close> of an item, which the program never reads),
  are outside the model.
\<close>

datatype jvalue = JNull | JBool bool | JInt int | JStr string

type_synonym story = "(string \<times> jvalue) list"

text \<open>\<^verbatim>\<open>d.get(k)\<close> and \<^verbatim>\<open>d.get(k, default)\<close>.\<close>

definition dict_get :: "story \<Rightarrow> string \<Rightarrow> jvalue option" where
  "dict_get d k = map_of d k"

definition dict_get_default :: "story \<Rightarrow> string \<Rightarrow> jvalue \<Rightarrow> jvalue" where
  "dict_get_default d k dflt = (case dict_get d k of None \<Rightarrow> dflt | Some v \<Rightarrow> v)"

text \<open>
  The exceptions that the program can meet. The first five are \<^verbatim>\<open>requests.RequestException\<close>
  and its subclasses (a timeout is one of them, and so is the \<^verbatim>\<open>HTTPError\<close> of
  \<^verbatim>\<open>raise_for_status\<close>); every constructor is a subclass of \<^verbatim>\<open>Exception\<close> and carries
  the text that \<^verbatim>\<open>str(e)\<close> gives.
\<close>

datatype py_exception =
    RequestException string
  | ConnectionError string
  | Timeout string
  | HTTPError string
  | InvalidJSONError string
  | SMTPException string
  | OSError string
  | ValueError string
  | TypeError string
  | AttributeError string
  | KeyError string

fun is_RequestException :: "py_exception \<Rightarrow> bool" where
  "is_RequestException (RequestException _) = True"
| "is_RequestException (ConnectionError _) = True"
| "is_RequestException (Timeout _) = True"
| "is_RequestException (HTTPError _) = True"
| "is_RequestException (InvalidJSONError _) = True"
| "is_RequestException _ = False"

fun exn_message :: "py_exception \<Rightarrow> string" where
  "exn_message (RequestException m) = m"
| "exn_message (ConnectionError m) = m"
| "exn_message (Timeout m) = m"
| "exn_message (HTTPError m) = m"
| "exn_message (InvalidJSONError m) = m"
| "exn_message (SMTPException m) = m"
| "exn_message (OSError m) = m"
| "exn_message (ValueError m) = m"
| "exn_message (TypeError m) = m"
| "exn_message (AttributeError m) = m"
| "exn_message (KeyError m) = m"

text \<open>
  The slice \<^verbatim>\<open>xs[:n]\<close>: the first \<open>n\<close> elements, and for a negative \<open>n\<close> all but the
  last \<open>-n\<close>.
\<close>

definition py_slice_to :: "'a list \<Rightarrow> int \<Rightarrow> 'a list" where
  "py_slice_to xs n =
     (if 0 \<le> n then take (nat n) xs else take (length xs - nat (- n)) xs)"

section \<open>The outside world\<close>

text \<open>
  What \<^verbatim>\<open>requests.get\<close> gives back: the call raises, or a response arrives. Of a response
  the program uses \<^verbatim>\<open>raise_for_status()\<close>, which raises an \<^verbatim>\<open>HTTPError\<close> for a status
  code from 400 to 599 and for no other (the text of the error names the code and the
  reason phrase; the model keeps the reason phrase), and \<^verbatim>\<open>json()\<close>, which returns the
  parsed body or raises.
\<close>

record 'a response =
  status_code :: nat
  reason :: string
  json_result :: "py_exception + 'a"

datatype request = TopStories | Item int

text \<open>The message that \<^verbatim>\<open>send_to_instapaper\<close> builds: a \<^verbatim>\<open>MIMEText\<close> and three headers.\<close>

record email =
  content_type :: string
  payload :: string
  subject :: jvalue
  sender :: "string option"
  recipient :: "string option"

datatype smtp_step = Connect | StartTLS | Login | SendMessage

text \<open>
  The world fixes the environment variables, the answer of the two Hacker News endpoints
  and, for the SMTP session that carries a message, the step that fails, if one does.
  The body of an item is a dictionary or \<^verbatim>\<open>null\<close>, as the annotation
  \<^verbatim>\<open>dict | None\<close> of \<^verbatim>\<open>fetch_story\<close> says.
\<close>

record world =
  environ :: "string \<Rightarrow> string option"
  get_topstories :: "py_exception + int list response"
  get_item :: "int \<Rightarrow> py_exception + story option response"
  smtp_fault :: "email \<Rightarrow> (smtp_step \<times> py_exception) option"

text \<open>What the program prints, one constructor for each \<^verbatim>\<open>print\<close> of the source.\<close>

datatype line =
    MissingHeader
  | MissingVar string
  | SeeScriptHeader
  | FetchingTop int
  | FetchingDetails
  | FoundStories nat
  | SendingTop nat
  | StoryTitle nat jvalue
  | StoryUrl jvalue
  | StoryComments jvalue
  | SentOk
  | FailedToSend string
  | Done

datatype event =
    Print line
  | HttpGet request
  | SmtpConnect string nat
  | SmtpStartTLS
  | SmtpLogin "string option" "string option"
  | SmtpSendMessage email
  | SmtpQuit

fun is_network :: "event \<Rightarrow> bool" where
  "is_network (Print _) = False"
| "is_network _ = True"

section \<open>Configuration\<close>

definition ICLOUD_EMAIL :: "world \<Rightarrow> string option" where
  "ICLOUD_EMAIL w = environ w ''ICLOUD_EMAIL''"

definition ICLOUD_APP_PASSWORD :: "world \<Rightarrow> string option" where
  "ICLOUD_APP_PASSWORD w = environ w ''ICLOUD_APP_PASSWORD''"

definition INSTAPAPER_EMAIL :: "world \<Rightarrow> string option" where
  "INSTAPAPER_EMAIL w = environ w ''INSTAPAPER_EMAIL''"

definition STORIES_TO_FETCH :: int where
  "STORIES_TO_FETCH = 20"

definition STORIES_TO_SEND :: int where
  "STORIES_TO_SEND = 5"

text \<open>\<^verbatim>\<open>not v\<close> for a value of \<^verbatim>\<open>os.environ.get\<close>: \<^verbatim>\<open>None\<close> and the empty string are false.\<close>

fun py_not :: "string option \<Rightarrow> bool" where
  "py_not None = True"
| "py_not (Some s) = (s = [])"

section \<open>The functions of the program\<close>

definition raise_for_status :: "'a response \<Rightarrow> py_exception + unit" where
  "raise_for_status r =
     (if 400 \<le> status_code r \<and> status_code r < 600 then Inl (HTTPError (reason r))
      else Inr ())"

text \<open>
  The three lines \<^verbatim>\<open>response = requests.get(...)\<close>, \<^verbatim>\<open>response.raise_for_status()\<close>,
  \<^verbatim>\<open>response.json()\<close> that both fetchers share.
\<close>

definition get_json :: "py_exception + 'a response \<Rightarrow> py_exception + 'a" where
  "get_json reply =
     (case reply of
        Inl e \<Rightarrow> Inl e
      | Inr r \<Rightarrow> (case raise_for_status r of Inl e \<Rightarrow> Inl e | Inr _ \<Rightarrow> json_result r))"

definition fetch_top_stories :: "world \<Rightarrow> int \<Rightarrow> event list \<times> (py_exception + int list)" where
  "fetch_top_stories w n =
     ([HttpGet TopStories],
      (case get_json (get_topstories w) of
         Inl e \<Rightarrow> Inl e
       | Inr ids \<Rightarrow> Inr (py_slice_to ids n)))"

definition fetch_story :: "world \<Rightarrow> int \<Rightarrow> event list \<times> (py_exception + story option)" where
  "fetch_story w story_id =
     ([HttpGet (Item story_id)],
      (case get_json (get_item w story_id) of
         Inl e \<Rightarrow> (if is_RequestException e then Inr None else Inl e)
       | Inr v \<Rightarrow> Inr v))"

definition has_external_url :: "story \<Rightarrow> bool" where
  "has_external_url s = (case dict_get s ''url'' of None \<Rightarrow> False | Some v \<Rightarrow> v \<noteq> JNull)"

text \<open>
  The comparison \<^verbatim>\<open><\<close> of two sort keys. Python orders two numbers (a \<^verbatim>\<open>bool\<close> is the
  number 0 or 1) and two strings (by code point), and raises \<^verbatim>\<open>TypeError\<close> for
  \<^verbatim>\<open>None\<close> and for a number against a string.
\<close>

fun str_lt :: "string \<Rightarrow> string \<Rightarrow> bool" where
  "str_lt [] [] = False"
| "str_lt [] (b # bs) = True"
| "str_lt (a # as) [] = False"
| "str_lt (a # as) (b # bs) =
     (if (of_char a :: nat) < of_char b then True
      else if (of_char b :: nat) < of_char a then False
      else str_lt as bs)"

fun num_of :: "jvalue \<Rightarrow> int option" where
  "num_of (JInt i) = Some i"
| "num_of (JBool b) = Some (if b then 1 else 0)"
| "num_of _ = None"

fun py_lt :: "jvalue \<Rightarrow> jvalue \<Rightarrow> py_exception + bool" where
  "py_lt (JStr a) (JStr b) = Inr (str_lt a b)"
| "py_lt x y =
     (case (num_of x, num_of y) of
        (Some i, Some j) \<Rightarrow> Inr (i < j)
      | _ \<Rightarrow> Inl (TypeError ''< not supported between these instances''))"

text \<open>
  \<^verbatim>\<open>sorted(xs, key=k, reverse=r)\<close>. The sort is stable and compares keys with \<^verbatim>\<open><\<close>
  only; with \<^verbatim>\<open>reverse=True\<close> the list is reversed, sorted and reversed again, which
  keeps the elements of equal key in their first order. A comparison that raises ends the
  sort. The model sorts by insertion; on scalar keys every stable sort that compares with
  \<^verbatim>\<open><\<close> gives the same result and raises for the same lists (those of two or more
  elements whose keys are not all numbers and not all strings).
\<close>

fun py_insort :: "('a \<Rightarrow> jvalue) \<Rightarrow> 'a \<Rightarrow> 'a list \<Rightarrow> py_exception + 'a list" where
  "py_insort k x [] = Inr [x]"
| "py_insort k x (y # ys) =
     (case py_lt (k y) (k x) of
        Inl e \<Rightarrow> Inl e
      | Inr True \<Rightarrow> (case py_insort k x ys of Inl e \<Rightarrow> Inl e | Inr r \<Rightarrow> Inr (y # r))
      | Inr False \<Rightarrow> Inr (x # y # ys))"

fun py_sort :: "('a \<Rightarrow> jvalue) \<Rightarrow> 'a list \<Rightarrow> py_exception + 'a list" where
  "py_sort k [] = Inr []"
| "py_sort k (x # xs) =
     (case py_sort k xs of Inl e \<Rightarrow> Inl e | Inr r \<Rightarrow> py_insort k x r)"

definition py_sorted :: "('a \<Rightarrow> jvalue) \<Rightarrow> bool \<Rightarrow> 'a list \<Rightarrow> py_exception + 'a list" where
  "py_sorted k reverse xs =
     (if reverse
      then (case py_sort k (rev xs) of Inl e \<Rightarrow> Inl e | Inr r \<Rightarrow> Inr (rev r))
      else py_sort k xs)"

definition descendants_key :: "story \<Rightarrow> jvalue" where
  "descendants_key s = dict_get_default s ''descendants'' (JInt 0)"

definition get_top_commented_stories :: "story list \<Rightarrow> int \<Rightarrow> py_exception + story list" where
  "get_top_commented_stories stories n =
     (case py_sorted descendants_key True stories of
        Inl e \<Rightarrow> Inl e
      | Inr sorted_stories \<Rightarrow> Inr (py_slice_to sorted_stories n))"

text \<open>
  \<^verbatim>\<open>MIMEText(url)\<close> encodes its argument and raises \<^verbatim>\<open>AttributeError\<close> when that is
  not a string; the three header assignments store what they are given.
\<close>

definition build_message :: "world \<Rightarrow> jvalue \<Rightarrow> jvalue \<Rightarrow> py_exception + email" where
  "build_message w url title =
     (case url of
        JStr u \<Rightarrow>
          Inr \<lparr>content_type = ''text/plain'', payload = u, subject = title,
               sender = ICLOUD_EMAIL w, recipient = INSTAPAPER_EMAIL w\<rparr>
      | _ \<Rightarrow> Inl (AttributeError ''object has no attribute encode''))"

text \<open>
  The \<^verbatim>\<open>with smtplib.SMTP(...)\<close> block: connect, \<^verbatim>\<open>starttls\<close>, \<^verbatim>\<open>login\<close>,
  \<^verbatim>\<open>send_message\<close>. Once the connection is open, leaving the block closes it.
\<close>

definition smtp_session :: "world \<Rightarrow> email \<Rightarrow> event list \<times> py_exception option" where
  "smtp_session w msg =
     (let c = SmtpConnect ''smtp.mail.me.com'' 587;
          l = SmtpLogin (ICLOUD_EMAIL w) (ICLOUD_APP_PASSWORD w)
      in case smtp_fault w msg of
           Some (Connect, e) \<Rightarrow> ([c], Some e)
         | Some (StartTLS, e) \<Rightarrow> ([c, SmtpStartTLS, SmtpQuit], Some e)
         | Some (Login, e) \<Rightarrow> ([c, SmtpStartTLS, l, SmtpQuit], Some e)
         | Some (SendMessage, e) \<Rightarrow> ([c, SmtpStartTLS, l, SmtpSendMessage msg, SmtpQuit], Some e)
         | None \<Rightarrow> ([c, SmtpStartTLS, l, SmtpSendMessage msg, SmtpQuit], None))"

definition send_to_instapaper :: "world \<Rightarrow> jvalue \<Rightarrow> jvalue \<Rightarrow> event list \<times> py_exception option" where
  "send_to_instapaper w url title =
     (case build_message w url title of
        Inl e \<Rightarrow> ([], Some e)
      | Inr msg \<Rightarrow> smtp_session w msg)"

section \<open>The driver\<close>

definition missing_vars :: "world \<Rightarrow> string list" where
  "missing_vars w =
     (if py_not (ICLOUD_EMAIL w) then [''ICLOUD_EMAIL''] else []) @
     (if py_not (ICLOUD_APP_PASSWORD w) then [''ICLOUD_APP_PASSWORD''] else []) @
     (if py_not (INSTAPAPER_EMAIL w) then [''INSTAPAPER_EMAIL''] else [])"

text \<open>
  The loop over \<^verbatim>\<open>story_ids\<close>. \<^verbatim>\<open>if story and has_external_url(story)\<close>: \<^verbatim>\<open>None\<close> and the
  empty dictionary are false, and \<^verbatim>\<open>has_external_url\<close> is evaluated only after that.
\<close>

fun keep_story :: "story option \<Rightarrow> story list" where
  "keep_story None = []"
| "keep_story (Some s) = (if s \<noteq> [] \<and> has_external_url s then [s] else [])"

fun fetch_details :: "world \<Rightarrow> int list \<Rightarrow> event list \<times> (py_exception + story list)" where
  "fetch_details w [] = ([], Inr [])"
| "fetch_details w (story_id # ids) =
     (case fetch_story w story_id of
        (ev, Inl e) \<Rightarrow> (ev, Inl e)
      | (ev, Inr fetched) \<Rightarrow>
          (case fetch_details w ids of
             (evs, Inl e) \<Rightarrow> (ev @ evs, Inl e)
           | (evs, Inr stories) \<Rightarrow> (ev @ evs, Inr (keep_story fetched @ stories))))"

text \<open>
  The loop over \<^verbatim>\<open>enumerate(top_stories, 1)\<close>. \<^verbatim>\<open>story["url"]\<close> raises \<^verbatim>\<open>KeyError\<close> when
  the key is not there; the \<^verbatim>\<open>try\<close> that follows catches every \<^verbatim>\<open>Exception\<close> of the send.
\<close>

fun send_report :: "py_exception option \<Rightarrow> line" where
  "send_report None = SentOk"
| "send_report (Some e) = FailedToSend (exn_message e)"

fun send_all :: "world \<Rightarrow> nat \<Rightarrow> story list \<Rightarrow> event list \<times> py_exception option" where
  "send_all w i [] = ([], None)"
| "send_all w i (s # ss) =
     (let title = dict_get_default s ''title'' (JStr ''Untitled'') in
      case dict_get s ''url'' of
        None \<Rightarrow> ([], Some (KeyError ''url''))
      | Some url \<Rightarrow>
          (let comments = dict_get_default s ''descendants'' (JInt 0);
               shown = [Print (StoryTitle i title), Print (StoryUrl url),
                        Print (StoryComments comments)]
           in case send_to_instapaper w url title of
                (sev, r) \<Rightarrow>
                  (case send_all w (Suc i) ss of
                     (rest, u) \<Rightarrow> (shown @ sev @ [Print (send_report r)] @ rest, u))))"

text \<open>
  The part of \<^verbatim>\<open>main\<close> from the first fetch to \<^verbatim>\<open>top_stories\<close>, with the two settings as
  arguments: the events and the ranked selection.
\<close>

definition fetch_and_rank :: "int \<Rightarrow> int \<Rightarrow> world \<Rightarrow> event list \<times> (py_exception + story list)" where
  "fetch_and_rank fetch_n send_n w =
     (case fetch_top_stories w fetch_n of
        (ev1, Inl e) \<Rightarrow> (Print (FetchingTop fetch_n) # ev1, Inl e)
      | (ev1, Inr story_ids) \<Rightarrow>
          (case fetch_details w story_ids of
             (ev2, Inl e) \<Rightarrow> (Print (FetchingTop fetch_n) # ev1 @ Print FetchingDetails # ev2, Inl e)
           | (ev2, Inr stories) \<Rightarrow>
               (Print (FetchingTop fetch_n) # ev1 @ Print FetchingDetails # ev2 @
                  [Print (FoundStories (length stories))],
                get_top_commented_stories stories send_n)))"

definition main_with :: "int \<Rightarrow> int \<Rightarrow> world \<Rightarrow> event list \<times> py_exception option" where
  "main_with fetch_n send_n w =
     (let missing = missing_vars w in
      if missing \<noteq> []
      then (Print MissingHeader # map (\<lambda>var. Print (MissingVar var)) missing @
              [Print SeeScriptHeader], None)
      else
        (case fetch_and_rank fetch_n send_n w of
           (ev, Inl e) \<Rightarrow> (ev, Some e)
         | (ev, Inr top_stories) \<Rightarrow>
             (case send_all w 1 top_stories of
                (sev, Some e) \<Rightarrow> (ev @ Print (SendingTop (length top_stories)) # sev, Some e)
              | (sev, None) \<Rightarrow>
                  (ev @ Print (SendingTop (length top_stories)) # sev @ [Print Done], None))))"

definition main :: "world \<Rightarrow> event list \<times> py_exception option" where
  "main w = main_with STORIES_TO_FETCH STORIES_TO_SEND w"

section \<open>Example worlds\<close>

text \<open>
  A world for the example of the specification: the ranking endpoint lists six stories;
  story 2 is a self-post, the request for story 5 times out, and the mail server rejects
  the login of the session that carries the link of story 3.
\<close>

definition scenario_story :: "int \<Rightarrow> story" where
  "scenario_story i =
     (if i = 1 then
        [(''id'', JInt 1), (''title'', JStr ''One''), (''url'', JStr ''https://one.example''),
         (''descendants'', JInt 10)]
      else if i = 2 then
        [(''id'', JInt 2), (''title'', JStr ''Ask HN: two''), (''descendants'', JInt 50)]
      else if i = 3 then
        [(''id'', JInt 3), (''title'', JStr ''Three''), (''url'', JStr ''https://three.example''),
         (''descendants'', JInt 30)]
      else if i = 4 then
        [(''id'', JInt 4), (''url'', JStr ''https://four.example''), (''descendants'', JInt 5)]
      else
        [(''id'', JInt i), (''title'', JStr ''Later''), (''url'', JStr ''https://later.example''),
         (''descendants'', JInt 100)])"

definition scenario_environ :: "string \<Rightarrow> string option" where
  "scenario_environ =
     [''ICLOUD_EMAIL'' \<mapsto> ''me@icloud.com'', ''ICLOUD_APP_PASSWORD'' \<mapsto> ''abcd-efgh'',
      ''INSTAPAPER_EMAIL'' \<mapsto> ''read@instapaper.com'']"

definition scenario_world :: world where
  "scenario_world =
     \<lparr>environ = scenario_environ,
      get_topstories = Inr \<lparr>status_code = 200, reason = ''OK'', json_result = Inr [1, 2, 3, 4, 5, 6]\<rparr>,
      get_item = (\<lambda>i. if i = 5 then Inl (Timeout ''timed out'')
                      else Inr \<lparr>status_code = 200, reason = ''OK'', json_result = Inr (Some (scenario_story i))\<rparr>),
      smtp_fault = (\<lambda>msg. if payload msg = ''https://three.example''
                         then Some (Login, SMTPException ''authentication failed'') else None)\<rparr>"

text \<open>
  A story whose \<^verbatim>\<open>url\<close> is the empty string, a world that serves it, a story that ties
  with story 1 of the example, and two worlds whose configuration is incomplete: one
  without \<^verbatim>\<open>ICLOUD_EMAIL\<close> and with an empty \<^verbatim>\<open>ICLOUD_APP_PASSWORD\<close>, one with all three
  variables set and the password empty.
\<close>

definition blank_url_story :: story where
  "blank_url_story =
     [(''id'', JInt 7), (''title'', JStr ''Ask HN: seven''), (''url'', JStr ''''),
      (''descendants'', JInt 3)]"

definition blank_url_world :: world where
  "blank_url_world =
     \<lparr>environ = scenario_environ,
      get_topstories = Inr \<lparr>status_code = 200, reason = ''OK'', json_result = Inr [7]\<rparr>,
      get_item = (\<lambda>i. Inr \<lparr>status_code = 200, reason = ''OK'', json_result = Inr (Some blank_url_story)\<rparr>),
      smtp_fault = (\<lambda>msg. None)\<rparr>"

definition tied_story :: story where
  "tied_story =
     [(''id'', JInt 8), (''title'', JStr ''Eight''), (''url'', JStr ''https://eight.example''),
      (''descendants'', JInt 10)]"

definition half_set_world :: world where
  "half_set_world =
     scenario_world\<lparr>environ := [''ICLOUD_APP_PASSWORD'' \<mapsto> '''',
                                  ''INSTAPAPER_EMAIL'' \<mapsto> ''read@instapaper.com'']\<rparr>"

definition empty_password_world :: world where
  "empty_password_world =
     scenario_world\<lparr>environ := scenario_environ(''ICLOUD_APP_PASSWORD'' \<mapsto> '''')\<rparr>"

text \<open>
  The world of the example, with item 4 deleted: the endpoint answers with success and
  the body \<^verbatim>\<open>null\<close>.
\<close>

definition deleted_item_world :: world where
  "deleted_item_world =
     scenario_world\<lparr>get_item := (get_item scenario_world)
        (4 := Inr \<lparr>status_code = 200, reason = ''OK'', json_result = Inr None\<rparr>)\<rparr>"





section \<open>Notions of the specification\<close>

text \<open>
  The discussion count of a story: its \<^verbatim>\<open>descendants\<close>, 0 when the key is absent. It is
  a number for the items that Hacker News serves; \<open>is_number\<close> says so of a sort key.
\<close>

definition count_of :: "jvalue \<Rightarrow> int" where
  "count_of v = (case num_of v of Some i \<Rightarrow> i | None \<Rightarrow> 0)"

definition discussion_count :: "story \<Rightarrow> int" where
  "discussion_count s = count_of (descendants_key s)"

definition is_number :: "jvalue \<Rightarrow> bool" where
  "is_number v = (num_of v \<noteq> None)"

text \<open>
  A sort key that is a string, and the code points of a string key: Python orders two
  strings as the lists of their code points.
\<close>

definition is_string :: "jvalue \<Rightarrow> bool" where
  "is_string v = (case v of JStr _ \<Rightarrow> True | _ \<Rightarrow> False)"

definition codes_of :: "jvalue \<Rightarrow> nat list" where
  "codes_of v = (case v of JStr a \<Rightarrow> map of_char a | _ \<Rightarrow> [])"

text \<open>
  The three names that \<^verbatim>\<open>main\<close> checks, in its order; those of them that the environment
  does not define, and those whose value is false for Python (not defined, or empty).
\<close>

definition config_names :: "string list" where
  "config_names = [''ICLOUD_EMAIL'', ''ICLOUD_APP_PASSWORD'', ''INSTAPAPER_EMAIL'']"

definition absent_names :: "world \<Rightarrow> string list" where
  "absent_names w = filter (\<lambda>var. environ w var = None) config_names"

definition falsy_names :: "world \<Rightarrow> string list" where
  "falsy_names w = filter (\<lambda>var. py_not (environ w var)) config_names"

section \<open>Notions of the send loop\<close>

text \<open>
  For a story of the ranked selection: the \<^verbatim>\<open>url\<close> and the \<^verbatim>\<open>title\<close> that the loop hands to
  \<^verbatim>\<open>send_to_instapaper\<close>, and the three lines it prints before the send. An outcome line
  is one of the two lines that the \<^verbatim>\<open>try\<close> prints.
\<close>

definition url_of :: "story \<Rightarrow> jvalue" where
  "url_of s = dict_get_default s ''url'' JNull"

definition title_of :: "story \<Rightarrow> jvalue" where
  "title_of s = dict_get_default s ''title'' (JStr ''Untitled'')"

definition story_lines :: "nat \<Rightarrow> story \<Rightarrow> event list" where
  "story_lines i s =
     [Print (StoryTitle i (title_of s)), Print (StoryUrl (url_of s)),
      Print (StoryComments (descendants_key s))]"

fun is_outcome :: "event \<Rightarrow> bool" where
  "is_outcome (Print SentOk) = True"
| "is_outcome (Print (FailedToSend _)) = True"
| "is_outcome _ = False"

section \<open>Projections of the loops\<close>

lemma snd_fetch_details_Cons:
  "snd (fetch_details w (i # ids)) =
     (case snd (fetch_story w i) of
        Inl e \<Rightarrow> Inl e
      | Inr fetched \<Rightarrow>
          (case snd (fetch_details w ids) of
             Inl e \<Rightarrow> Inl e
           | Inr stories \<Rightarrow> Inr (keep_story fetched @ stories)))"
  by (simp split: prod.splits sum.splits)

lemma snd_fetch_and_rank:
  "snd (fetch_and_rank fetch_n send_n w) =
     (case snd (fetch_top_stories w fetch_n) of
        Inl e \<Rightarrow> Inl e
      | Inr story_ids \<Rightarrow>
          (case snd (fetch_details w story_ids) of
             Inl e \<Rightarrow> Inl e
           | Inr stories \<Rightarrow> get_top_commented_stories stories send_n))"
  by (simp add: fetch_and_rank_def split: prod.splits sum.splits)

section \<open>The filter\<close>

lemma has_external_url_nonempty: "has_external_url s \<Longrightarrow> s \<noteq> []"
  by (auto simp: has_external_url_def dict_get_def)

lemma has_external_url_iff:
  "has_external_url s \<longleftrightarrow> (\<exists>v. dict_get s ''url'' = Some v \<and> v \<noteq> JNull)"
  by (auto simp: has_external_url_def split: option.splits)

lemma keep_story_url: "s \<in> set (keep_story f) \<Longrightarrow> has_external_url s"
  by (cases f) (auto split: if_splits)

lemma fetch_details_url:
  "snd (fetch_details w ids) = Inr stories \<Longrightarrow> s \<in> set stories \<Longrightarrow> has_external_url s"
proof (induction ids arbitrary: stories)
  case Nil
  then show ?case by simp
next
  case (Cons i ids)
  from Cons.prems(1) obtain f rest where
    f: "snd (fetch_story w i) = Inr f" and r: "snd (fetch_details w ids) = Inr rest"
    and st: "stories = keep_story f @ rest"
    by (auto simp: snd_fetch_details_Cons simp del: fetch_details.simps split: sum.splits)
  from Cons.prems(2) st have "s \<in> set (keep_story f) \<or> s \<in> set rest" by simp
  then show ?case
    using keep_story_url Cons.IH [OF r] by blast
qed

section \<open>The sort\<close>

lemma py_insort_set: "py_insort k x ys = Inr r \<Longrightarrow> set r = insert x (set ys)"
proof (induction ys arbitrary: r)
  case Nil
  then show ?case by auto
next
  case (Cons y ys)
  show ?case
  proof (cases "py_lt (k y) (k x)")
    case (Inl e)
    with Cons.prems show ?thesis by simp
  next
    case (Inr b)
    show ?thesis
    proof (cases b)
      case True
      with Inr Cons.prems obtain r' where r': "py_insort k x ys = Inr r'" "r = y # r'"
        by (auto split: sum.splits)
      from Cons.IH [OF r'(1)] r'(2) show ?thesis by auto
    next
      case False
      with Inr Cons.prems show ?thesis by auto
    qed
  qed
qed

lemma py_sort_set: "py_sort k xs = Inr r \<Longrightarrow> set r = set xs"
proof (induction xs arbitrary: r)
  case Nil
  then show ?case by simp
next
  case (Cons x xs)
  from Cons.prems obtain r' where r': "py_sort k xs = Inr r'" "py_insort k x r' = Inr r"
    by (auto split: sum.splits)
  from py_insort_set [OF r'(2)] Cons.IH [OF r'(1)] show ?case by simp
qed

lemma py_sorted_set: "py_sorted k b xs = Inr r \<Longrightarrow> set r = set xs"
  by (auto simp: py_sorted_def split: if_splits sum.splits dest: py_sort_set)

lemma py_slice_to_subset: "set (py_slice_to xs n) \<subseteq> set xs"
  by (auto simp: py_slice_to_def dest: in_set_takeD)

lemma py_slice_to_take: "\<exists>m. py_slice_to xs n = take m xs"
  by (auto simp: py_slice_to_def)

lemma length_py_slice_to:
  "int (length (py_slice_to xs n)) =
     (if 0 \<le> n then min (int (length xs)) n else max 0 (int (length xs) + n))"
  by (auto simp: py_slice_to_def)

lemma get_top_subset:
  assumes "get_top_commented_stories stories n = Inr out"
  shows "set out \<subseteq> set stories"
proof -
  from assms obtain r where r: "py_sorted descendants_key True stories = Inr r"
    and o: "out = py_slice_to r n"
    by (auto simp: get_top_commented_stories_def split: sum.splits)
  from py_sorted_set [OF r] o py_slice_to_subset [of r n] show ?thesis by simp
qed

lemma fetch_and_rank_url:
  assumes "snd (fetch_and_rank fetch_n send_n w) = Inr selected" "s \<in> set selected"
  shows "has_external_url s"
proof -
  from assms(1) obtain ids stories where
    "snd (fetch_details w ids) = Inr stories"
    "get_top_commented_stories stories send_n = Inr selected"
    by (auto simp: snd_fetch_and_rank split: sum.splits)
  with assms(2) show ?thesis
    using fetch_details_url get_top_subset by blast
qed

text \<open>On keys that are numbers the sort of the model is the insertion sort of the library.\<close>

lemma py_lt_numbers:
  "is_number x \<Longrightarrow> is_number y \<Longrightarrow> py_lt x y = Inr (count_of x < count_of y)"
  by (cases x; cases y) (auto simp: is_number_def count_of_def)

lemma py_insort_numbers:
  "is_number (k x) \<Longrightarrow> \<forall>y\<in>set ys. is_number (k y) \<Longrightarrow>
   py_insort k x ys = Inr (insort_key (\<lambda>s. count_of (k s)) x ys)"
  by (induction ys) (auto simp: py_lt_numbers)

lemma py_sort_numbers:
  "\<forall>x\<in>set xs. is_number (k x) \<Longrightarrow> py_sort k xs = Inr (sort_key (\<lambda>s. count_of (k s)) xs)"
  by (induction xs) (auto simp: py_insort_numbers)

lemma py_sorted_reverse_numbers:
  "\<forall>x\<in>set xs. is_number (k x) \<Longrightarrow>
   py_sorted k True xs = Inr (rev (sort_key (\<lambda>s. count_of (k s)) (rev xs)))"
  by (simp add: py_sorted_def py_sort_numbers)

lemma discussion_count_fun: "(\<lambda>s. count_of (descendants_key s)) = discussion_count"
  by (simp add: fun_eq_iff discussion_count_def)

lemma get_top_numbers:
  "\<forall>s\<in>set stories. is_number (descendants_key s) \<Longrightarrow>
   get_top_commented_stories stories n =
     Inr (py_slice_to (rev (sort_key discussion_count (rev stories))) n)"
  by (simp add: get_top_commented_stories_def py_sorted_reverse_numbers discussion_count_fun)

lemma desc_sorted: "sorted_wrt (\<lambda>a b. b \<le> a) (map f (rev (sort_key f xs)))"
  by (simp add: sorted_wrt_rev rev_map [symmetric])

lemma stable_rev_sort:
  "filter (\<lambda>s. f s = c) (rev (sort_key f (rev xs))) = filter (\<lambda>s. f s = c) xs"
  by (simp add: rev_filter [symmetric] sort_key_stable)

text \<open>The sort on keys of any kind.\<close>

lemma str_lt_codes: "str_lt a b \<longleftrightarrow> (map of_char a :: nat list) < map of_char b"
  by (induction a b rule: str_lt.induct) auto

lemma py_lt_strings:
  "is_string x \<Longrightarrow> is_string y \<Longrightarrow> py_lt x y = Inr (codes_of x < codes_of y)"
  by (cases x; cases y) (simp_all add: is_string_def codes_of_def str_lt_codes)

lemma py_lt_kinds:
  "py_lt x y = Inr v \<Longrightarrow> is_number x \<and> is_number y \<or> is_string x \<and> is_string y"
  by (cases x; cases y) (simp_all add: is_number_def is_string_def)

lemma number_not_string: "is_number x \<Longrightarrow> \<not> is_string x"
  by (cases x) (simp_all add: is_number_def is_string_def)

text \<open>The sort of the model on keys that a measure into a linear order compares.\<close>

lemma py_insort_measure:
  fixes f :: "'a \<Rightarrow> 'b::linorder"
  assumes "\<forall>y\<in>set ys. py_lt (k y) (k x) = Inr (f y < f x)"
  shows "py_insort k x ys = Inr (insort_key f x ys)"
  using assms by (induction ys) (auto simp: not_less [symmetric])

lemma py_sort_measure:
  fixes f :: "'a \<Rightarrow> 'b::linorder"
  assumes "\<forall>x\<in>set xs. \<forall>y\<in>set xs. py_lt (k x) (k y) = Inr (f x < f y)"
  shows "py_sort k xs = Inr (sort_key f xs)"
  using assms
proof (induction xs)
  case Nil
  show ?case by simp
next
  case (Cons x xs)
  then have r: "py_sort k xs = Inr (sort_key f xs)" by simp
  have "\<forall>y\<in>set (sort_key f xs). py_lt (k y) (k x) = Inr (f y < f x)"
    using Cons.prems by simp
  then have "py_insort k x (sort_key f xs) = Inr (insort_key f x (sort_key f xs))"
    by (rule py_insort_measure)
  with r show ?case by simp
qed

lemma py_insort_head:
  "py_insort k x (y # ys) = Inr r \<Longrightarrow> \<exists>v. py_lt (k y) (k x) = Inr v"
  by (cases "py_lt (k y) (k x)") simp_all

lemma py_sort_kinds:
  assumes "py_sort k xs = Inr r" "2 \<le> length xs"
  shows "(\<forall>x\<in>set xs. is_number (k x)) \<or> (\<forall>x\<in>set xs. is_string (k x))"
  using assms
proof (induction xs arbitrary: r)
  case Nil
  then show ?case by simp
next
  case (Cons x xs)
  from Cons.prems(1) obtain r' where r': "py_sort k xs = Inr r'" and i: "py_insort k x r' = Inr r"
    by (auto split: sum.splits)
  from Cons.prems(2) have "xs \<noteq> []" by auto
  with py_sort_set [OF r'] obtain y ys where ry: "r' = y # ys"
    by (cases r') auto
  with py_sort_set [OF r'] have yx: "y \<in> set xs" by auto
  from i have "py_insort k x (y # ys) = Inr r" by (simp only: ry)
  then have "\<exists>v. py_lt (k y) (k x) = Inr v" by (rule py_insort_head)
  then obtain v where "py_lt (k y) (k x) = Inr v" ..
  then have kind: "is_number (k y) \<and> is_number (k x) \<or> is_string (k y) \<and> is_string (k x)"
    by (rule py_lt_kinds)
  show ?case
  proof (cases "2 \<le> length xs")
    case True
    from Cons.IH [OF r' True] kind yx show ?thesis
      using number_not_string by auto
  next
    case False
    then have "length xs < Suc (Suc 0)" by simp
    with \<open>xs \<noteq> []\<close> obtain z where "xs = [z]"
      by (cases xs) auto
    with yx have "xs = [y]" by simp
    with kind show ?thesis by auto
  qed
qed

lemma py_insort_length: "py_insort k x ys = Inr r \<Longrightarrow> length r = Suc (length ys)"
proof (induction ys arbitrary: r)
  case Nil
  then show ?case by auto
next
  case (Cons y ys)
  show ?case
  proof (cases "py_lt (k y) (k x)")
    case (Inl e)
    with Cons.prems show ?thesis by simp
  next
    case (Inr b)
    show ?thesis
    proof (cases b)
      case True
      with Inr Cons.prems obtain r' where r': "py_insort k x ys = Inr r'" "r = y # r'"
        by (auto split: sum.splits)
      from Cons.IH [OF r'(1)] r'(2) show ?thesis by auto
    next
      case False
      with Inr Cons.prems show ?thesis by auto
    qed
  qed
qed

lemma py_sort_length: "py_sort k xs = Inr r \<Longrightarrow> length r = length xs"
proof (induction xs arbitrary: r)
  case Nil
  then show ?case by simp
next
  case (Cons x xs)
  from Cons.prems obtain r' where r': "py_sort k xs = Inr r'" "py_insort k x r' = Inr r"
    by (auto split: sum.splits)
  from py_insort_length [OF r'(2)] Cons.IH [OF r'(1)] show ?case by simp
qed

lemma py_sort_short: "length xs \<le> 1 \<Longrightarrow> py_sort k xs = Inr xs"
  by (cases xs) auto

lemma filter_key_measure:
  "filter (\<lambda>s. k s = c) xs = filter (\<lambda>s. k s = c) (filter (\<lambda>s. g (k s) = g c) xs)"
  by (induction xs) auto

lemma py_sort_rev_measure:
  fixes g :: "jvalue \<Rightarrow> 'b::linorder"
  assumes cmp: "\<forall>x\<in>set xs. \<forall>y\<in>set xs. py_lt (k x) (k y) = Inr (g (k x) < g (k y))"
    and r: "py_sort k (rev xs) = Inr r"
  shows "sorted_wrt (\<lambda>a b. py_lt a b \<noteq> Inr True) (map k (rev r))
     \<and> filter (\<lambda>s. k s = c) (rev r) = filter (\<lambda>s. k s = c) xs"
proof -
  let ?f = "\<lambda>s. g (k s)"
  have "py_sort k (rev xs) = Inr (sort_key ?f (rev xs))"
    using cmp by (intro py_sort_measure) simp
  with r have e: "r = sort_key ?f (rev xs)" by simp
  have "sorted_wrt (\<lambda>a b. b \<le> a) (map ?f (rev r))"
    unfolding e by (rule desc_sorted)
  then have "sorted_wrt (\<lambda>x y. ?f y \<le> ?f x) (rev r)"
    by (simp add: sorted_wrt_map)
  moreover have "py_lt (k x) (k y) \<noteq> Inr True"
    if "x \<in> set (rev r)" "y \<in> set (rev r)" "?f y \<le> ?f x" for x y
  proof -
    from that(1,2) have "x \<in> set xs" "y \<in> set xs" by (simp_all add: e)
    with cmp have "py_lt (k x) (k y) = Inr (?f x < ?f y)" by blast
    with that(3) show ?thesis by simp
  qed
  ultimately have "sorted_wrt (\<lambda>x y. py_lt (k x) (k y) \<noteq> Inr True) (rev r)"
    by (rule sorted_wrt_mono_rel [rotated])
  then have s: "sorted_wrt (\<lambda>a b. py_lt a b \<noteq> Inr True) (map k (rev r))"
    by (simp add: sorted_wrt_map)
  have "filter (\<lambda>s. ?f s = g c) (rev r) = filter (\<lambda>s. ?f s = g c) xs"
    unfolding e by (rule stable_rev_sort)
  then have "filter (\<lambda>s. k s = c) (filter (\<lambda>s. ?f s = g c) (rev r)) =
      filter (\<lambda>s. k s = c) (filter (\<lambda>s. ?f s = g c) xs)"
    by (rule arg_cong)
  then have t: "filter (\<lambda>s. k s = c) (rev r) = filter (\<lambda>s. k s = c) xs"
    by (simp only: filter_key_measure [symmetric])
  from s t show ?thesis ..
qed

lemma sorted_wrt_short: "length xs \<le> 1 \<Longrightarrow> sorted_wrt P xs"
  by (cases xs) auto

lemma py_sort_rev_general:
  assumes r: "py_sort k (rev xs) = Inr r"
  shows "sorted_wrt (\<lambda>a b. py_lt a b \<noteq> Inr True) (map k (rev r))
     \<and> filter (\<lambda>s. k s = c) (rev r) = filter (\<lambda>s. k s = c) xs"
proof (cases "2 \<le> length xs")
  case False
  then have l: "length (rev xs) \<le> 1" by simp
  from r py_sort_short [OF l, of k] have "r = rev xs" by simp
  then have "rev r = xs" by simp
  moreover from False have "length (map k xs) \<le> 1" by simp
  ultimately show ?thesis
    by (simp add: sorted_wrt_short)
next
  case True
  then have "2 \<le> length (rev xs)" by simp
  from py_sort_kinds [OF r this]
  have "(\<forall>x\<in>set xs. is_number (k x)) \<or> (\<forall>x\<in>set xs. is_string (k x))" by simp
  then show ?thesis
  proof
    assume "\<forall>x\<in>set xs. is_number (k x)"
    then have "\<forall>x\<in>set xs. \<forall>y\<in>set xs. py_lt (k x) (k y) = Inr (count_of (k x) < count_of (k y))"
      by (simp add: py_lt_numbers)
    from py_sort_rev_measure [OF this r] show ?thesis .
  next
    assume "\<forall>x\<in>set xs. is_string (k x)"
    then have "\<forall>x\<in>set xs. \<forall>y\<in>set xs. py_lt (k x) (k y) = Inr (codes_of (k x) < codes_of (k y))"
      by (simp add: py_lt_strings)
    from py_sort_rev_measure [OF this r] show ?thesis .
  qed
qed

lemma get_top_general:
  assumes "get_top_commented_stories stories n = Inr out"
  shows "sorted_wrt (\<lambda>a b. py_lt a b \<noteq> Inr True) (map descendants_key out)
     \<and> prefix (filter (\<lambda>s. descendants_key s = c) out)
              (filter (\<lambda>s. descendants_key s = c) stories)
     \<and> int (length out) =
         (if 0 \<le> n then min (int (length stories)) n else max 0 (int (length stories) + n))"
proof -
  from assms obtain r where r: "py_sort descendants_key (rev stories) = Inr r"
    and o: "out = py_slice_to (rev r) n"
    by (auto simp: get_top_commented_stories_def py_sorted_def split: sum.splits)
  obtain m where t: "out = take m (rev r)"
    using o py_slice_to_take by blast
  from py_sort_rev_general [OF r, of c]
  have s: "sorted_wrt (\<lambda>a b. py_lt a b \<noteq> Inr True) (map descendants_key (rev r))"
    and f: "filter (\<lambda>s. descendants_key s = c) (rev r) = filter (\<lambda>s. descendants_key s = c) stories"
    by simp_all
  from s have "sorted_wrt (\<lambda>a b. py_lt a b \<noteq> Inr True) (take m (map descendants_key (rev r)))"
    by (rule sorted_wrt_take)
  then have 1: "sorted_wrt (\<lambda>a b. py_lt a b \<noteq> Inr True) (map descendants_key out)"
    by (simp add: t take_map)
  have "prefix out (rev r)" unfolding t by (rule take_is_prefix)
  then have "prefix (filter (\<lambda>s. descendants_key s = c) out)
               (filter (\<lambda>s. descendants_key s = c) (rev r))"
    by (rule filter_mono_prefix)
  then have 2: "prefix (filter (\<lambda>s. descendants_key s = c) out)
              (filter (\<lambda>s. descendants_key s = c) stories)"
    by (simp only: f)
  have "length r = length stories"
    using py_sort_length [OF r] by simp
  then have 3: "int (length out) =
         (if 0 \<le> n then min (int (length stories)) n else max 0 (int (length stories) + n))"
    unfolding o by (simp only: length_py_slice_to length_rev)
  from 1 2 3 show ?thesis by blast
qed

section \<open>The configuration check\<close>

lemma missing_vars_falsy: "missing_vars w = falsy_names w"
  by (simp add: missing_vars_def falsy_names_def config_names_def ICLOUD_EMAIL_def
      ICLOUD_APP_PASSWORD_def INSTAPAPER_EMAIL_def)

lemma missing_vars_empty_iff:
  "missing_vars w = [] \<longleftrightarrow>
     \<not> py_not (ICLOUD_EMAIL w) \<and> \<not> py_not (ICLOUD_APP_PASSWORD w) \<and> \<not> py_not (INSTAPAPER_EMAIL w)"
  by (simp add: missing_vars_def)

lemma main_missing:
  "missing_vars w \<noteq> [] \<Longrightarrow>
   main_with a b w =
     (Print MissingHeader # map (\<lambda>var. Print (MissingVar var)) (missing_vars w) @
        [Print SeeScriptHeader], None)"
  by (simp add: main_with_def)

lemma no_network_in_prints: "filter is_network (map (\<lambda>var. Print (f var)) xs) = []"
  by (induction xs) simp_all

lemma main_present_starts:
  "missing_vars w = [] \<Longrightarrow>
   take 2 (fst (main_with a b w)) = [Print (FetchingTop a), HttpGet TopStories]"
  by (simp add: main_with_def fetch_and_rank_def fetch_top_stories_def
      split: prod.splits sum.splits option.splits)

lemma py_not_unset:
  "env var = Some [] \<Longrightarrow> py_not ((env(var := None)) n) = py_not (env n)"
  by (cases "n = var") simp_all

section \<open>The example worlds\<close>

lemma snd_fetch_story_scenario:
  "snd (fetch_story scenario_world i) =
     (if i = 5 then Inr None else Inr (Some (scenario_story i)))"
  by (simp add: fetch_story_def scenario_world_def get_json_def raise_for_status_def)

lemma scenario_keys:
  "descendants_key (scenario_story 1) = JInt 10"
  "descendants_key (scenario_story 2) = JInt 50"
  "descendants_key (scenario_story 3) = JInt 30"
  "descendants_key (scenario_story 4) = JInt 5"
  "descendants_key tied_story = JInt 10"
  by (simp_all add: descendants_key_def dict_get_default_def dict_get_def scenario_story_def
      tied_story_def)

lemma scenario_config:
  "ICLOUD_EMAIL scenario_world = Some ''me@icloud.com''"
  "ICLOUD_APP_PASSWORD scenario_world = Some ''abcd-efgh''"
  "INSTAPAPER_EMAIL scenario_world = Some ''read@instapaper.com''"
  by (simp_all add: scenario_world_def scenario_environ_def ICLOUD_EMAIL_def
      ICLOUD_APP_PASSWORD_def INSTAPAPER_EMAIL_def)

lemma blank_fetch: "snd (fetch_details blank_url_world [7]) = Inr [blank_url_story]"
  by (simp add: fetch_story_def blank_url_world_def get_json_def raise_for_status_def
        has_external_url_def dict_get_def blank_url_story_def)

lemma blank_rank:
  "snd (fetch_and_rank STORIES_TO_FETCH STORIES_TO_SEND blank_url_world) = Inr [blank_url_story]"
proof -
  have a: "snd (fetch_top_stories blank_url_world STORIES_TO_FETCH) = Inr [7]"
    by (simp add: fetch_top_stories_def blank_url_world_def get_json_def raise_for_status_def
        py_slice_to_def STORIES_TO_FETCH_def)
  have b: "get_top_commented_stories [blank_url_story] STORIES_TO_SEND = Inr [blank_url_story]"
    by (simp add: get_top_commented_stories_def py_sorted_def py_slice_to_def STORIES_TO_SEND_def)
  show ?thesis
    using a b blank_fetch by (simp add: snd_fetch_and_rank)
qed

lemma tie_example:
  "get_top_commented_stories [scenario_story 1, scenario_story 3, tied_story] 3 =
     Inr [scenario_story 3, scenario_story 1, tied_story]"
  by (simp add: get_top_commented_stories_def py_sorted_def py_slice_to_def scenario_keys)

lemma half_set_config:
  "ICLOUD_EMAIL half_set_world = None"
  "ICLOUD_APP_PASSWORD half_set_world = Some ''''"
  "INSTAPAPER_EMAIL half_set_world = Some ''read@instapaper.com''"
  by (simp_all add: half_set_world_def ICLOUD_EMAIL_def ICLOUD_APP_PASSWORD_def
      INSTAPAPER_EMAIL_def)

lemma half_set_main:
  "main half_set_world =
     ([Print MissingHeader, Print (MissingVar ''ICLOUD_EMAIL''),
       Print (MissingVar ''ICLOUD_APP_PASSWORD''), Print SeeScriptHeader], None)"
  by (simp add: main_def main_with_def missing_vars_def half_set_config)

section \<open>The fetch loop\<close>


lemma fst_fetch_details_Cons:
  "fst (fetch_details w (i # ids)) =
     HttpGet (Item i) #
       (case snd (fetch_story w i) of Inl e \<Rightarrow> [] | Inr f \<Rightarrow> fst (fetch_details w ids))"
  by (simp add: fetch_story_def split: prod.splits sum.splits)

lemma snd_fetch_details_append:
  "snd (fetch_details w (xs @ ys)) =
     (case snd (fetch_details w xs) of
        Inl e \<Rightarrow> Inl e
      | Inr a \<Rightarrow> (case snd (fetch_details w ys) of Inl e \<Rightarrow> Inl e | Inr b \<Rightarrow> Inr (a @ b)))"
proof (induction xs)
  case Nil
  show ?case by (simp split: sum.splits)
next
  case (Cons x xs)
  show ?case
    unfolding append_Cons snd_fetch_details_Cons Cons.IH
    by (simp split: sum.splits)
qed


lemma skip_unavailable:
  assumes "snd (fetch_story w i) = Inr None"
  shows "snd (fetch_details w (pre @ i # post)) = snd (fetch_details w (pre @ post))"
  using assms
  by (simp add: snd_fetch_details_append snd_fetch_details_Cons del: fetch_details.simps(2)
      split: sum.splits)


lemma fetch_story_null_body:
  assumes "get_item w i = Inr r" "raise_for_status r = Inr ()" "json_result r = Inr None"
  shows "fetch_story w i = ([HttpGet (Item i)], Inr None)"
  using assms by (simp add: fetch_story_def get_json_def)

lemma fetch_story_timeout:
  "fetch_story (w\<lparr>get_item := (get_item w)(i := Inl (Timeout m))\<rparr>) j =
     (if j = i then ([HttpGet (Item i)], Inr None) else fetch_story w j)"
  by (simp add: fetch_story_def get_json_def)

lemma no_outcome_in_fetch_details: "filter is_outcome (fst (fetch_details w ids)) = []"
proof (induction ids)
  case Nil
  show ?case by simp
next
  case (Cons i ids)
  show ?case
    unfolding fst_fetch_details_Cons using Cons.IH by (simp split: sum.splits)
qed

lemma no_outcome_in_fetch_and_rank: "filter is_outcome (fst (fetch_and_rank a b w)) = []"
  using no_outcome_in_fetch_details [of w]
  by (simp add: fetch_and_rank_def fetch_top_stories_def split: prod.splits sum.splits)
    (metis fst_conv)

section \<open>The notifier and the send loop\<close>

lemma smtp_session_sent:
  "SmtpSendMessage m \<in> set (fst (smtp_session w msg)) \<Longrightarrow> m = msg"
  by (auto simp: smtp_session_def Let_def split: option.splits prod.splits smtp_step.splits)

lemma smtp_session_delivered:
  "snd (smtp_session w msg) = None \<Longrightarrow>
   fst (smtp_session w msg) =
     [SmtpConnect ''smtp.mail.me.com'' 587, SmtpStartTLS,
      SmtpLogin (ICLOUD_EMAIL w) (ICLOUD_APP_PASSWORD w), SmtpSendMessage msg, SmtpQuit]"
  by (auto simp: smtp_session_def Let_def split: option.splits prod.splits smtp_step.splits)

lemma send_all_Cons:
  "send_all w i (s # ss) =
     (case dict_get s ''url'' of
        None \<Rightarrow> ([], Some (KeyError ''url''))
      | Some url \<Rightarrow>
          ([Print (StoryTitle i (title_of s)), Print (StoryUrl url),
            Print (StoryComments (descendants_key s))] @
           fst (send_to_instapaper w url (title_of s)) @
           [Print (send_report (snd (send_to_instapaper w url (title_of s))))] @
           fst (send_all w (Suc i) ss),
           snd (send_all w (Suc i) ss)))"
  by (simp add: Let_def title_of_def descendants_key_def split: option.splits prod.splits)

lemma url_of_present: "has_external_url s \<Longrightarrow> dict_get s ''url'' = Some (url_of s)"
  by (auto simp: has_external_url_def url_of_def dict_get_default_def split: option.splits)

lemma send_all_Cons_url:
  assumes "has_external_url s"
  shows "send_all w i (s # ss) =
     (story_lines i s @ fst (send_to_instapaper w (url_of s) (title_of s)) @
        Print (send_report (snd (send_to_instapaper w (url_of s) (title_of s)))) #
        fst (send_all w (Suc i) ss),
      snd (send_all w (Suc i) ss))"
  unfolding send_all_Cons url_of_present [OF assms] story_lines_def by simp

lemma send_all_completes:
  "\<forall>s\<in>set ss. has_external_url s \<Longrightarrow> snd (send_all w i ss) = None"
proof (induction ss arbitrary: i)
  case Nil
  show ?case by simp
next
  case (Cons s ss)
  then have "has_external_url s" "\<forall>x\<in>set ss. has_external_url x" by simp_all
  then show ?case
    using Cons.IH by (simp add: send_all_Cons_url del: send_all.simps(2))
qed

lemma fst_send_all_append:
  "\<forall>s\<in>set xs. has_external_url s \<Longrightarrow>
   fst (send_all w i (xs @ ys)) = fst (send_all w i xs) @ fst (send_all w (i + length xs) ys)"
proof (induction xs arbitrary: i)
  case Nil
  show ?case by simp
next
  case (Cons s xs)
  then have u: "has_external_url s" and r: "\<forall>x\<in>set xs. has_external_url x" by simp_all
  show ?case
    unfolding append_Cons send_all_Cons_url [OF u] fst_conv Cons.IH [OF r] by simp
qed

lemma no_outcome_in_session: "filter is_outcome (fst (smtp_session w msg)) = []"
  by (simp add: smtp_session_def Let_def split: option.splits prod.splits smtp_step.splits)

lemma no_outcome_in_send: "filter is_outcome (fst (send_to_instapaper w url title)) = []"
  by (simp add: send_to_instapaper_def no_outcome_in_session split: sum.splits)

lemma no_outcome_in_lines: "filter is_outcome (story_lines i s) = []"
  by (simp add: story_lines_def)

lemma is_outcome_report: "is_outcome (Print (send_report r))"
  by (cases r) simp_all

lemma outcomes_send_all:
  "\<forall>s\<in>set ss. has_external_url s \<Longrightarrow>
   filter is_outcome (fst (send_all w i ss)) =
     map (\<lambda>s. Print (send_report (snd (send_to_instapaper w (url_of s) (title_of s))))) ss"
proof (induction ss arbitrary: i)
  case Nil
  show ?case by simp
next
  case (Cons s ss)
  then have u: "has_external_url s" and r: "\<forall>x\<in>set ss. has_external_url x" by simp_all
  show ?case
    unfolding send_all_Cons_url [OF u] fst_conv
    by (simp add: no_outcome_in_lines no_outcome_in_send is_outcome_report Cons.IH [OF r])
qed

lemma main_with_sends:
  assumes "missing_vars w = []" "snd (fetch_and_rank a b w) = Inr sel"
  shows "main_with a b w =
     (fst (fetch_and_rank a b w) @ Print (SendingTop (length sel)) # fst (send_all w 1 sel) @
        [Print Done], None)"
proof -
  have "\<forall>s\<in>set sel. has_external_url s"
    using assms(2) fetch_and_rank_url by blast
  then have n: "snd (send_all w 1 sel) = None"
    by (rule send_all_completes)
  obtain ev where r: "fetch_and_rank a b w = (ev, Inr sel)"
    using assms(2) by (metis prod.collapse)
  obtain sev where s: "send_all w 1 sel = (sev, None)"
    using n by (metis prod.collapse)
  show ?thesis
    using s by (simp add: main_with_def assms(1) r)
qed

section \<open>What the driver reads of the world\<close>

lemma fetch_details_cong:
  "(\<And>j. fetch_story w' j = fetch_story w j) \<Longrightarrow> fetch_details w' ids = fetch_details w ids"
  by (induction ids) simp_all

lemma config_cong:
  "environ w' = environ w \<Longrightarrow> ICLOUD_EMAIL w' = ICLOUD_EMAIL w"
  "environ w' = environ w \<Longrightarrow> ICLOUD_APP_PASSWORD w' = ICLOUD_APP_PASSWORD w"
  "environ w' = environ w \<Longrightarrow> INSTAPAPER_EMAIL w' = INSTAPAPER_EMAIL w"
  by (simp_all add: ICLOUD_EMAIL_def ICLOUD_APP_PASSWORD_def INSTAPAPER_EMAIL_def)

lemma send_to_instapaper_cong:
  assumes "environ w' = environ w" "smtp_fault w' = smtp_fault w"
  shows "send_to_instapaper w' url title = send_to_instapaper w url title"
proof -
  have b: "build_message w' url title = build_message w url title"
    unfolding build_message_def config_cong [OF assms(1)] ..
  have s: "smtp_session w' msg = smtp_session w msg" for msg
    unfolding smtp_session_def config_cong [OF assms(1)] assms(2) ..
  show ?thesis
    by (simp add: send_to_instapaper_def b s split: sum.splits)
qed

lemma send_all_cong:
  assumes "environ w' = environ w" "smtp_fault w' = smtp_fault w"
  shows "send_all w' i ss = send_all w i ss"
proof (induction ss arbitrary: i)
  case Nil
  show ?case by simp
next
  case (Cons s ss)
  show ?case
    unfolding send_all_Cons Cons.IH send_to_instapaper_cong [OF assms] ..
qed

lemma main_with_cong:
  assumes "environ w' = environ w" "get_topstories w' = get_topstories w"
    "smtp_fault w' = smtp_fault w" "\<And>j. fetch_story w' j = fetch_story w j"
  shows "main_with a b w' = main_with a b w"
proof -
  have m: "missing_vars w' = missing_vars w"
    using assms(1)
    by (simp add: missing_vars_def ICLOUD_EMAIL_def ICLOUD_APP_PASSWORD_def INSTAPAPER_EMAIL_def)
  have t: "fetch_top_stories w' a = fetch_top_stories w a"
    using assms(2) by (simp add: fetch_top_stories_def)
  have d: "fetch_details w' ids = fetch_details w ids" for ids
    using assms(4) by (rule fetch_details_cong)
  have r: "fetch_and_rank a b w' = fetch_and_rank a b w"
    unfolding fetch_and_rank_def t d ..
  have s: "send_all w' i ss = send_all w i ss" for i ss
    using assms(1,3) by (rule send_all_cong)
  show ?thesis
    unfolding main_with_def m r s ..
qed

section \<open>More of the example worlds\<close>

lemma scenario_urls:
  "has_external_url (scenario_story 1)" "\<not> has_external_url (scenario_story 2)"
  "has_external_url (scenario_story 3)" "has_external_url (scenario_story 4)"
  "has_external_url (scenario_story 6)"
  by (simp_all add: has_external_url_def dict_get_def scenario_story_def)


lemma scenario_fields:
  "url_of (scenario_story 1) = JStr ''https://one.example''"
  "title_of (scenario_story 1) = JStr ''One''"
  "url_of (scenario_story 3) = JStr ''https://three.example''"
  "title_of (scenario_story 3) = JStr ''Three''"
  by (simp_all add: url_of_def title_of_def dict_get_default_def dict_get_def scenario_story_def)

lemma scenario_send_one:
  "send_to_instapaper scenario_world (JStr ''https://one.example'') (JStr ''One'') =
     ([SmtpConnect ''smtp.mail.me.com'' 587, SmtpStartTLS,
       SmtpLogin (Some ''me@icloud.com'') (Some ''abcd-efgh''),
       SmtpSendMessage \<lparr>content_type = ''text/plain'', payload = ''https://one.example'',
         subject = JStr ''One'', sender = Some ''me@icloud.com'',
         recipient = Some ''read@instapaper.com''\<rparr>,
       SmtpQuit], None)"
  by (simp add: send_to_instapaper_def build_message_def smtp_session_def Let_def
      scenario_config)
    (simp add: scenario_world_def)

lemma scenario_send_three:
  "snd (send_to_instapaper scenario_world (JStr ''https://three.example'') (JStr ''Three'')) =
     Some (SMTPException ''authentication failed'')"
  by (simp add: send_to_instapaper_def build_message_def smtp_session_def Let_def
      scenario_config)
    (simp add: scenario_world_def)

lemma scenario_missing: "missing_vars scenario_world = []"
  by (simp add: missing_vars_def scenario_config)

lemma scenario_rank:
  "snd (fetch_and_rank 5 2 scenario_world) = Inr [scenario_story 3, scenario_story 1]"
proof -
  have ids: "snd (fetch_top_stories scenario_world 5) = Inr [1, 2, 3, 4, 5]"
    by (simp add: fetch_top_stories_def scenario_world_def get_json_def raise_for_status_def
        py_slice_to_def)
  have d: "snd (fetch_details scenario_world [1, 2, 3, 4, 5]) =
      Inr [scenario_story 1, scenario_story 3, scenario_story 4]"
    using scenario_urls
    by (simp add: snd_fetch_details_Cons snd_fetch_story_scenario has_external_url_nonempty
        del: fetch_details.simps(2))
  show ?thesis
    using ids d
    by (simp add: snd_fetch_and_rank get_top_commented_stories_def py_sorted_def
        py_slice_to_def scenario_keys)
qed

lemma deleted_item_reply:
  "get_item deleted_item_world 4 = Inr \<lparr>status_code = 200, reason = ''OK'', json_result = Inr None\<rparr>"
  by (simp add: deleted_item_world_def)

lemma blank_config:
  "ICLOUD_EMAIL blank_url_world = Some ''me@icloud.com''"
  "ICLOUD_APP_PASSWORD blank_url_world = Some ''abcd-efgh''"
  "INSTAPAPER_EMAIL blank_url_world = Some ''read@instapaper.com''"
  by (simp_all add: blank_url_world_def scenario_environ_def ICLOUD_EMAIL_def
      ICLOUD_APP_PASSWORD_def INSTAPAPER_EMAIL_def)

lemma blank_fields:
  "dict_get blank_url_story ''url'' = Some (JStr '''')"
  "title_of blank_url_story = JStr ''Ask HN: seven''"
  "descendants_key blank_url_story = JInt 3"
  by (simp_all add: title_of_def descendants_key_def dict_get_default_def dict_get_def
      blank_url_story_def)

lemma blank_send:
  "send_to_instapaper blank_url_world (JStr '''') (JStr ''Ask HN: seven'') =
     ([SmtpConnect ''smtp.mail.me.com'' 587, SmtpStartTLS,
       SmtpLogin (Some ''me@icloud.com'') (Some ''abcd-efgh''),
       SmtpSendMessage \<lparr>content_type = ''text/plain'', payload = '''',
         subject = JStr ''Ask HN: seven'', sender = Some ''me@icloud.com'',
         recipient = Some ''read@instapaper.com''\<rparr>,
       SmtpQuit], None)"
  by (simp add: send_to_instapaper_def build_message_def smtp_session_def Let_def blank_config)
    (simp add: blank_url_world_def)

lemma blank_send_all:
  "send_all blank_url_world 1 [blank_url_story] =
     ([Print (StoryTitle 1 (JStr ''Ask HN: seven'')), Print (StoryUrl (JStr '''')),
       Print (StoryComments (JInt 3)),
       SmtpConnect ''smtp.mail.me.com'' 587, SmtpStartTLS,
       SmtpLogin (Some ''me@icloud.com'') (Some ''abcd-efgh''),
       SmtpSendMessage \<lparr>content_type = ''text/plain'', payload = '''',
         subject = JStr ''Ask HN: seven'', sender = Some ''me@icloud.com'',
         recipient = Some ''read@instapaper.com''\<rparr>,
       SmtpQuit, Print SentOk], None)"
  unfolding send_all_Cons blank_fields by (simp add: blank_send)

lemma blank_fetch_and_rank:
  "fetch_and_rank STORIES_TO_FETCH STORIES_TO_SEND blank_url_world =
     ([Print (FetchingTop 20), HttpGet TopStories, Print FetchingDetails, HttpGet (Item 7),
       Print (FoundStories 1)], Inr [blank_url_story])"
proof -
  have e: "fst (fetch_and_rank STORIES_TO_FETCH STORIES_TO_SEND blank_url_world) =
     [Print (FetchingTop 20), HttpGet TopStories, Print FetchingDetails, HttpGet (Item 7),
       Print (FoundStories 1)]"
    by (simp add: fetch_and_rank_def fetch_top_stories_def fetch_story_def blank_url_world_def
        get_json_def raise_for_status_def py_slice_to_def STORIES_TO_FETCH_def
        has_external_url_def dict_get_def blank_url_story_def)
  with blank_rank show ?thesis
    by (metis prod.collapse)
qed

lemma blank_main:
  "main blank_url_world =
     ([Print (FetchingTop 20), HttpGet TopStories, Print FetchingDetails, HttpGet (Item 7),
       Print (FoundStories 1), Print (SendingTop 1),
       Print (StoryTitle 1 (JStr ''Ask HN: seven'')), Print (StoryUrl (JStr '''')),
       Print (StoryComments (JInt 3)),
       SmtpConnect ''smtp.mail.me.com'' 587, SmtpStartTLS,
       SmtpLogin (Some ''me@icloud.com'') (Some ''abcd-efgh''),
       SmtpSendMessage \<lparr>content_type = ''text/plain'', payload = '''',
         subject = JStr ''Ask HN: seven'', sender = Some ''me@icloud.com'',
         recipient = Some ''read@instapaper.com''\<rparr>,
       SmtpQuit, Print SentOk, Print Done], None)"
proof -
  have m: "missing_vars blank_url_world = []"
    by (simp add: missing_vars_def blank_config)
  show ?thesis
    using blank_send_all
    by (simp add: main_def main_with_def m blank_fetch_and_rank)
qed

section \<open>The filter keeps the stories that have a link\<close>

text \<open>
  Claim C1 says that only stories with an external URL that is present and not empty
  pass the filter. The code does not do that for a story whose \<^verbatim>\<open>url\<close> is the empty
  string: \<^verbatim>\<open>has_external_url\<close>, whose comment reads "has an external URL (not a
  self-post)", tests \<^verbatim>\<open>is not None\<close> and returns \<^verbatim>\<open>True\<close>; the story passes the filter, is
  the ranked selection, and \<^verbatim>\<open>main\<close> submits a message whose body is empty.
\<close>

theorem blank_url_is_kept_and_mailed:
  "dict_get blank_url_story ''url'' = Some (JStr '''')
   \<and> has_external_url blank_url_story
   \<and> snd (fetch_details blank_url_world [7]) = Inr [blank_url_story]
   \<and> snd (fetch_and_rank STORIES_TO_FETCH STORIES_TO_SEND blank_url_world) = Inr [blank_url_story]
   \<and> main blank_url_world =
       ([Print (FetchingTop 20), HttpGet TopStories, Print FetchingDetails, HttpGet (Item 7),
         Print (FoundStories 1), Print (SendingTop 1),
         Print (StoryTitle 1 (JStr ''Ask HN: seven'')), Print (StoryUrl (JStr '''')),
         Print (StoryComments (JInt 3)),
         SmtpConnect ''smtp.mail.me.com'' 587, SmtpStartTLS,
         SmtpLogin (Some ''me@icloud.com'') (Some ''abcd-efgh''),
         SmtpSendMessage \<lparr>content_type = ''text/plain'', payload = '''',
           subject = JStr ''Ask HN: seven'', sender = Some ''me@icloud.com'',
           recipient = Some ''read@instapaper.com''\<rparr>,
         SmtpQuit, Print SentOk, Print Done], None)"
  using blank_fetch blank_rank blank_main
  by (simp add: dict_get_def has_external_url_def blank_url_story_def)

section \<open>The ranking\<close>

text \<open>
  Claim C2. For every list of stories and every bound: whenever
  \<^verbatim>\<open>get_top_commented_stories\<close> returns a list, no story of that list is followed by one
  whose \<^verbatim>\<open>descendants\<close> (0 when the key is absent) is greater under Python's \<^verbatim>\<open><\<close>, and
  the stories of one and the same \<^verbatim>\<open>descendants\<close> stand in the order they have in the
  input. When the discussion counts are numbers it does return a list; the discussion
  counts of that list never increase from one story to the next, and the stories of any
  one discussion count stand in the order they have in the input.
\<close>

theorem ranked_sorted_stable:
  "(\<forall>out. get_top_commented_stories stories n = Inr out \<longrightarrow>
      sorted_wrt (\<lambda>a b. py_lt a b \<noteq> Inr True) (map descendants_key out)
      \<and> (\<forall>c. prefix (filter (\<lambda>s. descendants_key s = c) out)
                     (filter (\<lambda>s. descendants_key s = c) stories)))
   \<and> ((\<forall>s\<in>set stories. is_number (descendants_key s)) \<longrightarrow>
      (\<exists>out. get_top_commented_stories stories n = Inr out
         \<and> sorted_wrt (\<lambda>a b. b \<le> a) (map discussion_count out)
         \<and> (\<forall>c. prefix (filter (\<lambda>s. discussion_count s = c) out)
                        (filter (\<lambda>s. discussion_count s = c) stories))))"
proof (intro conjI allI impI)
  fix out c
  assume "get_top_commented_stories stories n = Inr out"
  from get_top_general [OF this, of c]
  show "sorted_wrt (\<lambda>a b. py_lt a b \<noteq> Inr True) (map descendants_key out)"
    and "prefix (filter (\<lambda>s. descendants_key s = c) out)
           (filter (\<lambda>s. descendants_key s = c) stories)"
    by simp_all
next
  assume num: "\<forall>s\<in>set stories. is_number (descendants_key s)"
  let ?full = "rev (sort_key discussion_count (rev stories))"
  let ?out = "py_slice_to ?full n"
  have r: "get_top_commented_stories stories n = Inr ?out"
    using num by (rule get_top_numbers)
  obtain m where t: "?out = take m ?full"
    using py_slice_to_take by blast
  have "sorted_wrt (\<lambda>a b. b \<le> a) (map discussion_count ?full)"
    by (rule desc_sorted)
  then have "sorted_wrt (\<lambda>a b. b \<le> a) (take m (map discussion_count ?full))"
    by (rule sorted_wrt_take)
  then have s: "sorted_wrt (\<lambda>a b. b \<le> a) (map discussion_count ?out)"
    using t by (metis take_map)
  have p: "prefix (filter (\<lambda>s. discussion_count s = c) ?out)
                  (filter (\<lambda>s. discussion_count s = c) stories)" for c
  proof -
    have "prefix ?out ?full" using t by (metis take_is_prefix)
    then have "prefix (filter (\<lambda>s. discussion_count s = c) ?out)
                      (filter (\<lambda>s. discussion_count s = c) ?full)"
      by (rule filter_mono_prefix)
    then show ?thesis by (simp only: stable_rev_sort)
  qed
  from r s p show "\<exists>out. get_top_commented_stories stories n = Inr out
         \<and> sorted_wrt (\<lambda>a b. b \<le> a) (map discussion_count out)
         \<and> (\<forall>c. prefix (filter (\<lambda>s. discussion_count s = c) out)
                        (filter (\<lambda>s. discussion_count s = c) stories))"
    by blast
qed

theorem ranked_sorted_stable_witness:
  "is_number (descendants_key (scenario_story 1)) \<and> is_number (descendants_key (scenario_story 3))
   \<and> is_number (descendants_key tied_story)
   \<and> get_top_commented_stories [scenario_story 1, scenario_story 3, tied_story] 3 =
       Inr [scenario_story 3, scenario_story 1, tied_story]
   \<and> sorted_wrt (\<lambda>a b. py_lt a b \<noteq> Inr True)
       (map descendants_key [scenario_story 3, scenario_story 1, tied_story])
   \<and> prefix (filter (\<lambda>s. descendants_key s = JInt 10) [scenario_story 3, scenario_story 1, tied_story])
            (filter (\<lambda>s. descendants_key s = JInt 10) [scenario_story 1, scenario_story 3, tied_story])
   \<and> sorted_wrt (\<lambda>a b. b \<le> a)
       (map discussion_count [scenario_story 3, scenario_story 1, tied_story])
   \<and> prefix (filter (\<lambda>s. discussion_count s = 10) [scenario_story 3, scenario_story 1, tied_story])
            (filter (\<lambda>s. discussion_count s = 10) [scenario_story 1, scenario_story 3, tied_story])"
proof -
  let ?in = "[scenario_story 1, scenario_story 3, tied_story]"
  let ?res = "[scenario_story 3, scenario_story 1, tied_story]"
  have n: "is_number (descendants_key (scenario_story 1))"
    "is_number (descendants_key (scenario_story 3))" "is_number (descendants_key tied_story)"
    by (simp_all add: scenario_keys is_number_def)
  then have all: "\<forall>s\<in>set ?in. is_number (descendants_key s)"
    by simp
  note t = ranked_sorted_stable [of ?in 3]
  from t tie_example
  have g: "sorted_wrt (\<lambda>a b. py_lt a b \<noteq> Inr True) (map descendants_key ?res)"
    and h: "prefix (filter (\<lambda>s. descendants_key s = JInt 10) ?res)
              (filter (\<lambda>s. descendants_key s = JInt 10) ?in)"
    by blast+
  from t all obtain out where
    o: "get_top_commented_stories ?in 3 = Inr out"
    and s: "sorted_wrt (\<lambda>a b. b \<le> a) (map discussion_count out)"
    and p: "prefix (filter (\<lambda>s. discussion_count s = 10) out)
              (filter (\<lambda>s. discussion_count s = 10) ?in)"
    by blast
  from o have e: "out = ?res"
    by (simp add: tie_example)
  from n tie_example g h s p show ?thesis unfolding e by blast
qed

text \<open>
  Claim C3. For every list of stories and every bound \<open>n\<close> that is a count (not
  negative): whenever \<^verbatim>\<open>get_top_commented_stories\<close> returns a list, its length is the
  smaller of \<open>n\<close> and the length of the input; and it does return a list, not an error,
  of that length when the discussion counts are numbers. So fewer than \<open>n\<close> stories give
  a shorter result. The bound of the program, \<^verbatim>\<open>STORIES_TO_SEND\<close>, is such a count.
\<close>

theorem ranked_length:
  assumes "0 \<le> n"
  shows "(\<forall>out. get_top_commented_stories stories n = Inr out \<longrightarrow>
        int (length out) = min (int (length stories)) n)
     \<and> ((\<forall>s\<in>set stories. is_number (descendants_key s)) \<longrightarrow>
          (\<exists>out. get_top_commented_stories stories n = Inr out
             \<and> int (length out) = min (int (length stories)) n))
     \<and> (\<forall>out. get_top_commented_stories stories STORIES_TO_SEND = Inr out \<longrightarrow>
          int (length out) = min (int (length stories)) STORIES_TO_SEND)"
proof (intro conjI allI impI)
  fix out
  assume "get_top_commented_stories stories n = Inr out"
  from get_top_general [OF this] assms
  show "int (length out) = min (int (length stories)) n"
    by simp
next
  assume "\<forall>s\<in>set stories. is_number (descendants_key s)"
  then have r: "get_top_commented_stories stories n =
          Inr (py_slice_to (rev (sort_key discussion_count (rev stories))) n)"
    by (rule get_top_numbers)
  from get_top_general [OF r] assms
  have "int (length (py_slice_to (rev (sort_key discussion_count (rev stories))) n)) =
      min (int (length stories)) n"
    by simp
  with r show "\<exists>out. get_top_commented_stories stories n = Inr out
             \<and> int (length out) = min (int (length stories)) n"
    by blast
next
  fix out
  assume "get_top_commented_stories stories STORIES_TO_SEND = Inr out"
  from get_top_general [OF this]
  show "int (length out) = min (int (length stories)) STORIES_TO_SEND"
    by (simp add: STORIES_TO_SEND_def)
qed

theorem ranked_length_witness:
  "(0::int) \<le> 5
   \<and> is_number (descendants_key (scenario_story 1)) \<and> is_number (descendants_key (scenario_story 3))
   \<and> (\<exists>out. get_top_commented_stories [scenario_story 1, scenario_story 3] 5 = Inr out
        \<and> int (length out) = 2)"
proof -
  have n: "is_number (descendants_key (scenario_story 1))"
    "is_number (descendants_key (scenario_story 3))"
    by (simp_all add: scenario_keys is_number_def)
  then have all: "\<forall>s\<in>set [scenario_story 1, scenario_story 3]. is_number (descendants_key s)"
    by simp
  have p: "(0::int) \<le> 5" by simp
  from ranked_length [OF p, of "[scenario_story 1, scenario_story 3]"] all obtain out where
    o: "get_top_commented_stories [scenario_story 1, scenario_story 3] 5 = Inr out"
    and l: "int (length out) = min (int (length [scenario_story 1, scenario_story 3])) 5"
    by blast
  from l have "int (length out) = 2" by simp
  with n o p show ?thesis by blast
qed

section \<open>The configuration\<close>

text \<open>
  Claim C4, as the code has it. When one of the three configuration values is absent or
  empty, \<^verbatim>\<open>main\<close> prints the header, the names of exactly the variables that are absent
  or empty, in the order of the checks, and the closing hint; it makes no network call
  and returns. When all three are present and not empty, the first thing it does after
  its first line is the request to the ranking endpoint.
\<close>

theorem missing_configuration:
  "(py_not (ICLOUD_EMAIL w) \<or> py_not (ICLOUD_APP_PASSWORD w) \<or> py_not (INSTAPAPER_EMAIL w) \<longrightarrow>
      main w = (Print MissingHeader # map (\<lambda>var. Print (MissingVar var)) (falsy_names w) @
                  [Print SeeScriptHeader], None)
      \<and> filter is_network (fst (main w)) = [])
   \<and> (\<not> py_not (ICLOUD_EMAIL w) \<and> \<not> py_not (ICLOUD_APP_PASSWORD w)
        \<and> \<not> py_not (INSTAPAPER_EMAIL w) \<longrightarrow>
      take 2 (fst (main w)) = [Print (FetchingTop STORIES_TO_FETCH), HttpGet TopStories])"
proof (intro conjI impI)
  assume "py_not (ICLOUD_EMAIL w) \<or> py_not (ICLOUD_APP_PASSWORD w) \<or> py_not (INSTAPAPER_EMAIL w)"
  then have m: "missing_vars w \<noteq> []"
    by (simp add: missing_vars_empty_iff)
  show e: "main w = (Print MissingHeader # map (\<lambda>var. Print (MissingVar var)) (falsy_names w) @
                  [Print SeeScriptHeader], None)"
    using main_missing [OF m] by (simp add: main_def missing_vars_falsy)
  show "filter is_network (fst (main w)) = []"
    by (simp add: e no_network_in_prints)
next
  assume "\<not> py_not (ICLOUD_EMAIL w) \<and> \<not> py_not (ICLOUD_APP_PASSWORD w)
    \<and> \<not> py_not (INSTAPAPER_EMAIL w)"
  then have "missing_vars w = []"
    by (simp add: missing_vars_empty_iff)
  then show "take 2 (fst (main w)) = [Print (FetchingTop STORIES_TO_FETCH), HttpGet TopStories]"
    unfolding main_def by (rule main_present_starts)
qed

theorem missing_configuration_witness:
  "py_not (ICLOUD_EMAIL half_set_world)
   \<and> main half_set_world =
       (Print MissingHeader # map (\<lambda>var. Print (MissingVar var)) (falsy_names half_set_world) @
          [Print SeeScriptHeader], None)
   \<and> filter is_network (fst (main half_set_world)) = []
   \<and> \<not> py_not (ICLOUD_EMAIL scenario_world) \<and> \<not> py_not (ICLOUD_APP_PASSWORD scenario_world)
   \<and> \<not> py_not (INSTAPAPER_EMAIL scenario_world)
   \<and> take 2 (fst (main scenario_world)) = [Print (FetchingTop STORIES_TO_FETCH), HttpGet TopStories]"
proof -
  have a: "py_not (ICLOUD_EMAIL half_set_world)"
    by (simp add: half_set_config)
  have b: "\<not> py_not (ICLOUD_EMAIL scenario_world)" "\<not> py_not (ICLOUD_APP_PASSWORD scenario_world)"
    "\<not> py_not (INSTAPAPER_EMAIL scenario_world)"
    by (simp_all add: scenario_config)
  from a b missing_configuration [of half_set_world] missing_configuration [of scenario_world]
  show ?thesis by simp
qed

text \<open>
  Claim C4, as the specification words it, fails: in a world where \<^verbatim>\<open>ICLOUD_EMAIL\<close> is the
  only absent variable and \<^verbatim>\<open>ICLOUD_APP_PASSWORD\<close> is set to the empty string, the list
  that \<^verbatim>\<open>main\<close> prints names both.
\<close>

theorem missing_list_names_empty_variable:
  "absent_names half_set_world = [''ICLOUD_EMAIL'']
   \<and> ICLOUD_APP_PASSWORD half_set_world = Some ''''
   \<and> fst (main half_set_world) =
       [Print MissingHeader, Print (MissingVar ''ICLOUD_EMAIL''),
        Print (MissingVar ''ICLOUD_APP_PASSWORD''), Print SeeScriptHeader]"
  using half_set_main half_set_config
  by (simp add: absent_names_def config_names_def half_set_world_def)

text \<open>
  Claim C9. A variable that is set to the empty string is treated as one that is not set:
  when one of the three variables is present and empty, \<^verbatim>\<open>main\<close> does exactly what it
  does with that variable removed from the environment; it reports the variable as
  missing, makes no network call and returns.
\<close>

theorem empty_variable_is_missing:
  assumes v: "var \<in> set config_names" and e: "environ w var = Some ''''"
  shows "main w = main (w\<lparr>environ := (environ w)(var := None)\<rparr>)
     \<and> Print (MissingVar var) \<in> set (fst (main w))
     \<and> filter is_network (fst (main w)) = []
     \<and> snd (main w) = None"
proof -
  let ?w' = "w\<lparr>environ := (environ w)(var := None)\<rparr>"
  have pn: "py_not (environ ?w' n) = py_not (environ w n)" for n
    using e py_not_unset [of "environ w" var n] by simp
  have same: "missing_vars ?w' = missing_vars w"
    unfolding missing_vars_falsy falsy_names_def by (simp only: pn)
  have inl: "var \<in> set (missing_vars w)"
    using v e by (simp add: missing_vars_falsy falsy_names_def)
  then have m: "missing_vars w \<noteq> []" by auto
  then have m': "missing_vars ?w' \<noteq> []" by (simp add: same)
  have 1: "main w = main ?w'"
    unfolding main_def main_missing [OF m] main_missing [OF m'] same ..
  have 2: "Print (MissingVar var) \<in> set (fst (main w))"
    unfolding main_def main_missing [OF m] using inl by simp
  have 3: "filter is_network (fst (main w)) = []"
    unfolding main_def main_missing [OF m] by (simp add: no_network_in_prints)
  have 4: "snd (main w) = None"
    unfolding main_def main_missing [OF m] by simp
  from 1 2 3 4 show ?thesis by blast
qed

theorem empty_variable_is_missing_witness:
  "''ICLOUD_APP_PASSWORD'' \<in> set config_names
   \<and> environ empty_password_world ''ICLOUD_APP_PASSWORD'' = Some ''''
   \<and> main empty_password_world =
       main (empty_password_world\<lparr>environ :=
               (environ empty_password_world)(''ICLOUD_APP_PASSWORD'' := None)\<rparr>)
   \<and> Print (MissingVar ''ICLOUD_APP_PASSWORD'') \<in> set (fst (main empty_password_world))
   \<and> filter is_network (fst (main empty_password_world)) = []
   \<and> snd (main empty_password_world) = None"
proof -
  have a: "''ICLOUD_APP_PASSWORD'' \<in> set config_names"
    by (simp add: config_names_def)
  have b: "environ empty_password_world ''ICLOUD_APP_PASSWORD'' = Some ''''"
    by (simp add: empty_password_world_def)
  from a b empty_variable_is_missing [OF a b] show ?thesis by blast
qed

section \<open>Fetching the stories\<close>




text \<open>
  Claim C10. When the item endpoint answers with success and the body \<^verbatim>\<open>null\<close>,
  \<^verbatim>\<open>fetch_story\<close> returns \<^verbatim>\<open>None\<close>; the guard \<^verbatim>\<open>if story and ...\<close> keeps nothing of
  \<^verbatim>\<open>None\<close> and never evaluates \<^verbatim>\<open>has_external_url\<close> on it; the loop keeps the stories of
  the batch without that identifier; and the whole run is what it is when the request for
  that identifier times out.
\<close>

theorem null_body_is_skipped:
  assumes "get_item w i = Inr r" "raise_for_status r = Inr ()" "json_result r = Inr None"
  shows "fetch_story w i = ([HttpGet (Item i)], Inr None)
     \<and> keep_story (None :: story option) = []
     \<and> snd (fetch_details w (pre @ i # post)) = snd (fetch_details w (pre @ post))
     \<and> main_with a b w = main_with a b (w\<lparr>get_item := (get_item w)(i := Inl (Timeout m))\<rparr>)"
proof -
  let ?w' = "w\<lparr>get_item := (get_item w)(i := Inl (Timeout m))\<rparr>"
  have f: "fetch_story w i = ([HttpGet (Item i)], Inr None)"
    using assms by (rule fetch_story_null_body)
  then have s: "snd (fetch_story w i) = Inr None" by simp
  have same: "fetch_story ?w' j = fetch_story w j" for j
    using f by (simp add: fetch_story_timeout)
  have "main_with a b ?w' = main_with a b w"
    by (rule main_with_cong) (simp_all add: same)
  with f skip_unavailable [OF s] show ?thesis by simp
qed

theorem null_body_is_skipped_witness:
  "get_item deleted_item_world 4 =
     Inr \<lparr>status_code = 200, reason = ''OK'', json_result = Inr None\<rparr>
   \<and> raise_for_status
       \<lparr>status_code = 200, reason = ''OK'', json_result = Inr (None :: story option)\<rparr> = Inr ()
   \<and> fetch_story deleted_item_world 4 = ([HttpGet (Item 4)], Inr None)
   \<and> snd (fetch_details deleted_item_world ([1, 2, 3] @ 4 # [5])) =
       snd (fetch_details deleted_item_world ([1, 2, 3] @ [5]))
   \<and> main_with 5 2 deleted_item_world =
       main_with 5 2 (deleted_item_world\<lparr>get_item :=
          (get_item deleted_item_world)(4 := Inl (Timeout ''timed out''))\<rparr>)"
proof -
  have a: "raise_for_status
      \<lparr>status_code = 200, reason = ''OK'', json_result = Inr (None :: story option)\<rparr> = Inr ()"
    "json_result \<lparr>status_code = 200, reason = ''OK'', json_result = Inr (None :: story option)\<rparr>
       = Inr None"
    by (simp_all add: raise_for_status_def)
  from null_body_is_skipped [OF deleted_item_reply a, of "[1, 2, 3]" "[5]" 5 2 "''timed out''"]
    deleted_item_reply a(1)
  show ?thesis by blast
qed

section \<open>Sending\<close>

text \<open>
  Claim C6. In a ranked selection, when the send of one story fails with an exception,
  the loop prints that story's failure line with the text of the exception and goes on
  with the stories after it exactly as it would; no exception leaves the loop. So in
  every run of \<^verbatim>\<open>main\<close> that reaches a ranked selection, \<^verbatim>\<open>main\<close> returns normally, and
  the outcome lines it prints are one for each selected story, in the order of the
  selection, each the report of that story's own send.
\<close>

theorem send_failure_does_not_abort:
  "(has_external_url s \<and> (\<forall>x\<in>set pre. has_external_url x) \<and> (\<forall>x\<in>set post. has_external_url x)
      \<and> snd (send_to_instapaper w (url_of s) (title_of s)) = Some e \<longrightarrow>
      snd (send_all w i (pre @ s # post)) = None
      \<and> fst (send_all w i (pre @ s # post)) =
          fst (send_all w i pre) @ story_lines (i + length pre) s @
          fst (send_to_instapaper w (url_of s) (title_of s)) @
          Print (FailedToSend (exn_message e)) # fst (send_all w (Suc (i + length pre)) post))
   \<and> (missing_vars w = [] \<and> snd (fetch_and_rank fetch_n send_n w) = Inr selected \<longrightarrow>
      snd (main_with fetch_n send_n w) = None
      \<and> filter is_outcome (fst (main_with fetch_n send_n w)) =
          map (\<lambda>x. Print (send_report (snd (send_to_instapaper w (url_of x) (title_of x)))))
            selected)"
proof (intro conjI impI)
  assume a: "has_external_url s \<and> (\<forall>x\<in>set pre. has_external_url x)
    \<and> (\<forall>x\<in>set post. has_external_url x)
    \<and> snd (send_to_instapaper w (url_of s) (title_of s)) = Some e"
  then have all: "\<forall>x\<in>set (pre @ s # post). has_external_url x" by auto
  then show "snd (send_all w i (pre @ s # post)) = None"
    by (rule send_all_completes)
  from a have p: "\<forall>x\<in>set pre. has_external_url x" and u: "has_external_url s"
    and f: "snd (send_to_instapaper w (url_of s) (title_of s)) = Some e" by simp_all
  show "fst (send_all w i (pre @ s # post)) =
          fst (send_all w i pre) @ story_lines (i + length pre) s @
          fst (send_to_instapaper w (url_of s) (title_of s)) @
          Print (FailedToSend (exn_message e)) # fst (send_all w (Suc (i + length pre)) post)"
    unfolding fst_send_all_append [OF p] send_all_Cons_url [OF u] f by simp
next
  assume a: "missing_vars w = [] \<and> snd (fetch_and_rank fetch_n send_n w) = Inr selected"
  then have m: "main_with fetch_n send_n w =
     (fst (fetch_and_rank fetch_n send_n w) @ Print (SendingTop (length selected)) #
        fst (send_all w 1 selected) @ [Print Done], None)"
    using main_with_sends by blast
  show "snd (main_with fetch_n send_n w) = None"
    by (simp add: m)
  have "\<forall>x\<in>set selected. has_external_url x"
    using a fetch_and_rank_url by blast
  then show "filter is_outcome (fst (main_with fetch_n send_n w)) =
          map (\<lambda>x. Print (send_report (snd (send_to_instapaper w (url_of x) (title_of x)))))
            selected"
    by (simp add: m no_outcome_in_fetch_and_rank outcomes_send_all)
qed

theorem send_failure_does_not_abort_witness:
  "has_external_url (scenario_story 3) \<and> has_external_url (scenario_story 1)
   \<and> snd (send_to_instapaper scenario_world (url_of (scenario_story 3))
            (title_of (scenario_story 3))) = Some (SMTPException ''authentication failed'')
   \<and> snd (send_all scenario_world 1 ([] @ scenario_story 3 # [scenario_story 1])) = None
   \<and> missing_vars scenario_world = []
   \<and> snd (fetch_and_rank 5 2 scenario_world) = Inr [scenario_story 3, scenario_story 1]
   \<and> snd (main_with 5 2 scenario_world) = None
   \<and> filter is_outcome (fst (main_with 5 2 scenario_world)) =
       [Print (FailedToSend ''authentication failed''), Print SentOk]"
proof -
  have f: "snd (send_to_instapaper scenario_world (url_of (scenario_story 3))
            (title_of (scenario_story 3))) = Some (SMTPException ''authentication failed'')"
    by (simp add: scenario_fields scenario_send_three)
  have g: "snd (send_to_instapaper scenario_world (url_of (scenario_story 1))
            (title_of (scenario_story 1))) = None"
    by (simp add: scenario_fields scenario_send_one)
  have u: "has_external_url (scenario_story 3)" "has_external_url (scenario_story 1)"
    by (simp_all add: scenario_urls)
  note t = send_failure_does_not_abort [of "scenario_story 3" "[]" "[scenario_story 1]"
      scenario_world "SMTPException ''authentication failed''" 1 5 2
      "[scenario_story 3, scenario_story 1]"]
  from t u f have a: "snd (send_all scenario_world 1 ([] @ scenario_story 3 # [scenario_story 1])) = None"
    by simp
  from t scenario_missing scenario_rank have b: "snd (main_with 5 2 scenario_world) = None"
    and c: "filter is_outcome (fst (main_with 5 2 scenario_world)) =
          map (\<lambda>x. Print (send_report (snd (send_to_instapaper scenario_world (url_of x)
            (title_of x))))) [scenario_story 3, scenario_story 1]"
    by blast+
  from c have c': "filter is_outcome (fst (main_with 5 2 scenario_world)) =
       [Print (FailedToSend ''authentication failed''), Print SentOk]"
    by (simp add: f g)
  from u f a scenario_missing scenario_rank b c' show ?thesis by blast
qed

text \<open>
  Claim C8. For every URL and title, \<^verbatim>\<open>send_to_instapaper\<close> builds a plain-text message
  whose subject is the title, whose body is the URL, whose sender is \<^verbatim>\<open>ICLOUD_EMAIL\<close> and
  whose one recipient is \<^verbatim>\<open>INSTAPAPER_EMAIL\<close>. Every message it hands to the mail server
  is that message, and a send that succeeds has connected to \<^verbatim>\<open>smtp.mail.me.com\<close> on port
  587, upgraded the connection, logged in and submitted that message once.
\<close>

theorem notifier_message:
  "build_message w (JStr url) (JStr title) =
     Inr \<lparr>content_type = ''text/plain'', payload = url, subject = JStr title,
          sender = ICLOUD_EMAIL w, recipient = INSTAPAPER_EMAIL w\<rparr>
   \<and> (\<forall>m. SmtpSendMessage m \<in> set (fst (send_to_instapaper w (JStr url) (JStr title))) \<longrightarrow>
        content_type m = ''text/plain'' \<and> payload m = url \<and> subject m = JStr title
        \<and> sender m = ICLOUD_EMAIL w \<and> recipient m = INSTAPAPER_EMAIL w)
   \<and> (snd (send_to_instapaper w (JStr url) (JStr title)) = None \<longrightarrow>
        fst (send_to_instapaper w (JStr url) (JStr title)) =
          [SmtpConnect ''smtp.mail.me.com'' 587, SmtpStartTLS,
           SmtpLogin (ICLOUD_EMAIL w) (ICLOUD_APP_PASSWORD w),
           SmtpSendMessage \<lparr>content_type = ''text/plain'', payload = url, subject = JStr title,
             sender = ICLOUD_EMAIL w, recipient = INSTAPAPER_EMAIL w\<rparr>,
           SmtpQuit])"
proof -
  let ?M = "\<lparr>content_type = ''text/plain'', payload = url, subject = JStr title,
             sender = ICLOUD_EMAIL w, recipient = INSTAPAPER_EMAIL w\<rparr>"
  have b: "build_message w (JStr url) (JStr title) = Inr ?M"
    by (simp add: build_message_def)
  have s: "send_to_instapaper w (JStr url) (JStr title) = smtp_session w ?M"
    by (simp add: send_to_instapaper_def b)
  have m: "content_type m = ''text/plain'' \<and> payload m = url \<and> subject m = JStr title
      \<and> sender m = ICLOUD_EMAIL w \<and> recipient m = INSTAPAPER_EMAIL w"
    if "SmtpSendMessage m \<in> set (fst (smtp_session w ?M))" for m
  proof -
    from that have "m = ?M" by (rule smtp_session_sent)
    then show ?thesis by simp
  qed
  have d: "snd (smtp_session w ?M) = None \<Longrightarrow>
      fst (smtp_session w ?M) =
        [SmtpConnect ''smtp.mail.me.com'' 587, SmtpStartTLS,
         SmtpLogin (ICLOUD_EMAIL w) (ICLOUD_APP_PASSWORD w), SmtpSendMessage ?M, SmtpQuit]"
    by (rule smtp_session_delivered)
  from b m d show ?thesis
    unfolding s by blast
qed

theorem notifier_message_witness:
  "snd (send_to_instapaper scenario_world (JStr ''https://one.example'') (JStr ''One'')) = None
   \<and> build_message scenario_world (JStr ''https://one.example'') (JStr ''One'') =
       Inr \<lparr>content_type = ''text/plain'', payload = ''https://one.example'',
            subject = JStr ''One'', sender = Some ''me@icloud.com'',
            recipient = Some ''read@instapaper.com''\<rparr>
   \<and> fst (send_to_instapaper scenario_world (JStr ''https://one.example'') (JStr ''One'')) =
       [SmtpConnect ''smtp.mail.me.com'' 587, SmtpStartTLS,
        SmtpLogin (Some ''me@icloud.com'') (Some ''abcd-efgh''),
        SmtpSendMessage \<lparr>content_type = ''text/plain'', payload = ''https://one.example'',
          subject = JStr ''One'', sender = Some ''me@icloud.com'',
          recipient = Some ''read@instapaper.com''\<rparr>,
        SmtpQuit]"
proof -
  have n: "snd (send_to_instapaper scenario_world (JStr ''https://one.example'') (JStr ''One'')) = None"
    by (simp add: scenario_send_one)
  from n notifier_message [of scenario_world "''https://one.example''" "''One''"]
  show ?thesis by (simp add: scenario_config)
qed

section \<open>The example of the specification\<close>

text \<open>
  Claim C7. With a fetch bound of 5 and a send bound of 2, when the five fetched
  identifiers 1 to 5 resolve to a story with a link and 10 comments, a story without a
  link and 50 comments, a story with a link and 30 comments, a story with a link and 5
  comments, and a failed fetch, the ranked selection is story 3 followed by story 1.
\<close>

theorem scenario_selection:
  assumes ids: "snd (fetch_top_stories w 5) = Inr [1, 2, 3, 4, 5]"
    and s1: "snd (fetch_story w 1) = Inr (Some s1)" "has_external_url s1"
      "descendants_key s1 = JInt 10"
    and s2: "snd (fetch_story w 2) = Inr (Some s2)" "\<not> has_external_url s2"
      "descendants_key s2 = JInt 50"
    and s3: "snd (fetch_story w 3) = Inr (Some s3)" "has_external_url s3"
      "descendants_key s3 = JInt 30"
    and s4: "snd (fetch_story w 4) = Inr (Some s4)" "has_external_url s4"
      "descendants_key s4 = JInt 5"
    and s5: "snd (fetch_story w 5) = Inr None"
  shows "snd (fetch_and_rank 5 2 w) = Inr [s3, s1]"
proof -
  have ne: "s1 \<noteq> []" "s3 \<noteq> []" "s4 \<noteq> []"
    using s1(2) s3(2) s4(2) by (simp_all add: has_external_url_nonempty)
  have d: "snd (fetch_details w [1, 2, 3, 4, 5]) = Inr [s1, s3, s4]"
    using s1 s2 s3 s4 s5 ne
    by (simp add: snd_fetch_details_Cons del: fetch_details.simps(2))
  show ?thesis
    using ids d s1(3) s3(3) s4(3)
    by (simp add: snd_fetch_and_rank get_top_commented_stories_def py_sorted_def
        py_slice_to_def)
qed

theorem scenario_selection_witness:
  "snd (fetch_top_stories scenario_world 5) = Inr [1, 2, 3, 4, 5]
   \<and> has_external_url (scenario_story 1) \<and> \<not> has_external_url (scenario_story 2)
   \<and> snd (fetch_story scenario_world 5) = Inr None
   \<and> snd (fetch_and_rank 5 2 scenario_world) = Inr [scenario_story 3, scenario_story 1]"
proof -
  have ids: "snd (fetch_top_stories scenario_world 5) = Inr [1, 2, 3, 4, 5]"
    by (simp add: fetch_top_stories_def scenario_world_def get_json_def raise_for_status_def
        py_slice_to_def)
  have u: "has_external_url (scenario_story 1)" "\<not> has_external_url (scenario_story 2)"
    "has_external_url (scenario_story 3)" "has_external_url (scenario_story 4)"
    by (simp_all add: has_external_url_def dict_get_def scenario_story_def)
  have f: "snd (fetch_story scenario_world 1) = Inr (Some (scenario_story 1))"
    "snd (fetch_story scenario_world 2) = Inr (Some (scenario_story 2))"
    "snd (fetch_story scenario_world 3) = Inr (Some (scenario_story 3))"
    "snd (fetch_story scenario_world 4) = Inr (Some (scenario_story 4))"
    "snd (fetch_story scenario_world 5) = Inr None"
    by (simp_all add: snd_fetch_story_scenario)
  have "snd (fetch_and_rank 5 2 scenario_world) = Inr [scenario_story 3, scenario_story 1]"
    by (rule scenario_selection [OF ids f(1) u(1) scenario_keys(1) f(2) u(2) scenario_keys(2)
          f(3) u(3) scenario_keys(3) f(4) u(4) scenario_keys(4) f(5)])
  with ids u f show ?thesis by simp
qed

end
